theory Spec2Isabelle
  imports Main "HOL-Library.Sublist"
begin

section \<open>The pose pipeline of \<^verbatim>\<open>src/pipeline/__main__.py\<close>\<close>

text \<open>
  The program extracts pose landmarks from every video of a directory, writes them to one
  JSON file per video, flattens that file into rows and inserts the rows into one SQLite
  table. The embedding follows the source function by function. What the program gets
  from outside (OpenCV, MediaPipe, the clock, the directory listing, whether an operating
  system or SQLite call fails) is a field of the record \<open>world\<close>; what the program changes
  (the JSON files, the database tables, the log) is a field of the record \<open>state\<close>.
  An exception is a value: every function returns an \<open>outcome\<close> together with the state it
  leaves behind, since the effects that came before a raise stay.
\<close>

subsection \<open>Data\<close>

text \<open>
  The coordinates and the visibility are Python floats that the program only copies, from
  the detector to the JSON file and from there to the table. Their type is the parameter
  \<open>'f\<close>; no arithmetic is done on them.
\<close>

text \<open>One landmark as MediaPipe returns it: \<^verbatim>\<open>landmark.x\<close>, \<^verbatim>\<open>.y\<close>, \<^verbatim>\<open>.z\<close>, \<^verbatim>\<open>.visibility\<close>.\<close>

record 'f mp_landmark =
  mp_x :: 'f
  mp_y :: 'f
  mp_z :: 'f
  mp_visibility :: 'f

text \<open>The dictionary \<^verbatim>\<open>landmark_data\<close> (keys id, nome, x, y, z, visibility).\<close>

record 'f landmark_data =
  lm_id :: int
  lm_nome :: string
  lm_x :: 'f
  lm_y :: 'f
  lm_z :: 'f
  lm_visibility :: 'f

text \<open>The dictionary \<^verbatim>\<open>frame_data\<close> (keys frame, landmarks).\<close>

record 'f frame_data =
  fd_frame :: int
  fd_landmarks :: "'f landmark_data list"

text \<open>
  One tuple of \<^verbatim>\<open>linhas_para_db\<close>, which is one row of the table
  \<^verbatim>\<open>keypoints_normalizados\<close>; the fields carry the column names.
\<close>

record 'f row =
  video_nome :: string
  frame :: int
  landmark_id :: int
  landmark_nome :: string
  coord_x :: 'f
  coord_y :: 'f
  coord_z :: 'f
  visibilidade :: 'f
  data_processamento :: string

text \<open>The columns of \<^verbatim>\<open>PRIMARY KEY (video_nome, frame, landmark_id)\<close>.\<close>

definition primary_key :: "'f row \<Rightarrow> string \<times> int \<times> int" where
  "primary_key r = (video_nome r, frame r, landmark_id r)"

text \<open>
  What a path of the output directory holds. \<^verbatim>\<open>open(path, 'w')\<close> creates or empties the
  file, and \<^verbatim>\<open>json.dump\<close> then writes the document into it: until the document is complete
  the file is \<open>Truncated\<close> (\<^verbatim>\<open>json.load\<close> raises on it), afterwards it is \<open>JsonDoc\<close> of the
  list that was dumped (\<^verbatim>\<open>json.load\<close> returns that list).
\<close>

datatype 'f file_content = Truncated | JsonDoc "'f frame_data list"

datatype py_exception =
    TypeError | ValueError | OSError | FileNotFoundError | JSONDecodeError
  | UnboundLocalError | sqlite3_Error

text \<open>One constructor per logging call of the source, named by level and message.\<close>

datatype log_record =
    INFO_Configurando string
  | INFO_BancoPronto
  | INFO_Extraindo string
  | ERROR_NaoAbriu string
  | INFO_ExtracaoConcluida int
  | WARNING_NenhumaPose string
  | INFO_TL string
  | WARNING_NenhumaLinha
  | INFO_Sucesso int
  | ERROR_SQLite
  | INFO_Iniciando
  | WARNING_NenhumVideo string
  | INFO_Encontrados nat
  | ERROR_Falha string py_exception
  | INFO_Concluido

datatype 'a outcome = Return 'a | Raise py_exception

text \<open>
  What \<^verbatim>\<open>cv2.VideoCapture(path)\<close> gives: whether it opened, and for every frame that
  \<^verbatim>\<open>cap.read()\<close> returns before it first fails, what \<^verbatim>\<open>pose.process\<close> finds in it
  (\<open>None\<close> when \<^verbatim>\<open>results.pose_landmarks\<close> is None).
\<close>

record 'f video =
  isOpened :: bool
  reads :: "'f mp_landmark list option list"

datatype sqlite_behaviour = SqlOk | ConnectRaises | ExecuteRaises

record 'f world =
  listdir :: "string list"
  VideoCapture :: "string \<Rightarrow> 'f video"
  PoseLandmark :: "int \<Rightarrow> string option"
  utcnow_isoformat :: "string \<Rightarrow> string"
  makedirs_ok :: "string \<Rightarrow> bool"
  open_w_ok :: "string \<Rightarrow> bool"
  sqlite_setup :: "string \<Rightarrow> sqlite_behaviour"
  sqlite :: "string \<Rightarrow> string \<Rightarrow> sqlite_behaviour"

text \<open>
  \<open>listdir\<close> are the names in the input directory, in the order the operating system
  lists them. \<open>PoseLandmark idx\<close> is \<^verbatim>\<open>mp_pose.PoseLandmark(idx).name\<close>, \<open>None\<close> where the
  enumeration has no such value and the call raises ValueError. \<open>utcnow_isoformat v\<close> is
  what \<^verbatim>\<open>datetime.utcnow().isoformat()\<close> returns in the call for the video \<open>v\<close>.
  \<open>makedirs_ok\<close> and \<open>open_w_ok\<close> say whether \<^verbatim>\<open>os.makedirs\<close> and \<^verbatim>\<open>open(path, 'w')\<close>
  succeed. \<open>sqlite_setup db\<close> says what SQLite does on the database \<open>db\<close> during
  \<^verbatim>\<open>setup_database\<close>, and \<open>sqlite v db\<close> what it does during the load for the video \<open>v\<close>:
  \<^verbatim>\<open>sqlite3.connect\<close> raises, or a later call on the connection raises (the store cannot
  be reached any more, or the table is missing or does not fit), or none does. The store
  can so be up in the set-up and down for one video and up again for the next.
\<close>

record 'f state =
  files :: "string \<rightharpoonup> 'f file_content"
  dbs :: "string \<rightharpoonup> 'f row list"
  log :: "log_record list"

text \<open>
  \<open>dbs st p\<close> is the table \<^verbatim>\<open>keypoints_normalizados\<close> of the database file \<open>p\<close>, its rows in
  insertion order; \<open>None\<close> when that database has no such table.
\<close>

definition logging :: "log_record \<Rightarrow> 'f state \<Rightarrow> 'f state" where
  "logging r st = st\<lparr>log := log st @ [r]\<rparr>"

subsection \<open>Paths and constants\<close>

definition VIDEO_INPUT_DIR :: string where
  "VIDEO_INPUT_DIR = ''/app/videos_input''"

definition KEYPOINTS_OUTPUT_DIR :: string where
  "KEYPOINTS_OUTPUT_DIR = ''/app/keypoints_output''"

definition DATABASE_DIR :: string where
  "DATABASE_DIR = ''/app/database''"

text \<open>\<^verbatim>\<open>os.path.join\<close> of two components, on POSIX.\<close>

definition join :: "string \<Rightarrow> string \<Rightarrow> string" where
  "join a b =
     (if b \<noteq> [] \<and> hd b = CHR ''/'' then b
      else if a = [] \<or> last a = CHR ''/'' then a @ b
      else a @ CHR ''/'' # b)"

definition DB_FILE :: string where
  "DB_FILE = join DATABASE_DIR ''poses.db''"

text \<open>\<^verbatim>\<open>os.path.basename\<close>: what follows the last slash.\<close>

definition basename :: "string \<Rightarrow> string" where
  "basename p = rev (takeWhile (\<lambda>c. c \<noteq> CHR ''/'') (rev p))"

text \<open>\<^verbatim>\<open>os.path.dirname\<close>: what precedes the last slash, without trailing slashes unless it is the root.\<close>

definition dirname :: "string \<Rightarrow> string" where
  "dirname p =
     (let h = rev (dropWhile (\<lambda>c. c \<noteq> CHR ''/'') (rev p))
      in if h \<noteq> [] \<and> (\<exists>c \<in> set h. c \<noteq> CHR ''/'')
         then rev (dropWhile (\<lambda>c. c = CHR ''/'') (rev h)) else h)"

subsection \<open>\<^verbatim>\<open>setup_database\<close>\<close>

text \<open>
  \<^verbatim>\<open>CREATE TABLE IF NOT EXISTS\<close> creates the table empty, and leaves a table that is
  there as it is. Nothing in the function catches an exception.
\<close>

definition setup_database :: "'f world \<Rightarrow> string \<Rightarrow> 'f state \<Rightarrow> unit outcome \<times> 'f state" where
  "setup_database w db_path st =
     (let st1 = logging (INFO_Configurando db_path) st in
      if \<not> makedirs_ok w (dirname db_path) then (Raise OSError, st1)
      else case sqlite_setup w db_path of
          ConnectRaises \<Rightarrow> (Raise sqlite3_Error, st1)
        | ExecuteRaises \<Rightarrow> (Raise sqlite3_Error, st1)
        | SqlOk \<Rightarrow>
            (Return (),
             logging INFO_BancoPronto
               (st1\<lparr>dbs := (dbs st1)(db_path \<mapsto>
                   (case dbs st1 db_path of None \<Rightarrow> [] | Some t \<Rightarrow> t))\<rparr>)))"

subsection \<open>\<^verbatim>\<open>extrair_keypoints\<close>\<close>

text \<open>The loop over \<^verbatim>\<open>enumerate(results.pose_landmarks.landmark)\<close>.\<close>

fun landmarks_loop ::
  "'f world \<Rightarrow> 'f mp_landmark list \<Rightarrow> int \<Rightarrow> 'f landmark_data list \<Rightarrow> 'f landmark_data list outcome"
where
  "landmarks_loop w [] idx acc = Return acc"
| "landmarks_loop w (landmark # rest) idx acc =
     (case PoseLandmark w idx of
        None \<Rightarrow> Raise ValueError
      | Some name \<Rightarrow>
          landmarks_loop w rest (idx + 1)
            (acc @ [\<lparr>lm_id = idx, lm_nome = name, lm_x = mp_x landmark, lm_y = mp_y landmark,
                     lm_z = mp_z landmark, lm_visibility = mp_visibility landmark\<rparr>]))"

text \<open>
  The loop \<^verbatim>\<open>while cap.isOpened()\<close>: the list holds what the remaining reads return, and the
  loop ends (\<^verbatim>\<open>break\<close>) when it is exhausted. The result is the final \<^verbatim>\<open>frame_count\<close> and
  \<^verbatim>\<open>dados_brutos\<close>.
\<close>

fun frames_loop ::
  "'f world \<Rightarrow> 'f mp_landmark list option list \<Rightarrow> int \<Rightarrow> 'f frame_data list
     \<Rightarrow> (int \<times> 'f frame_data list) outcome"
where
  "frames_loop w [] frame_count dados_brutos = Return (frame_count, dados_brutos)"
| "frames_loop w (results # rest) frame_count dados_brutos =
     (case results of
        None \<Rightarrow> frames_loop w rest (frame_count + 1) dados_brutos
      | Some pose_landmarks \<Rightarrow>
          (case landmarks_loop w pose_landmarks 0 [] of
             Raise e \<Rightarrow> Raise e
           | Return lms \<Rightarrow>
               frames_loop w rest (frame_count + 1)
                 (dados_brutos @ [\<lparr>fd_frame = frame_count, fd_landmarks = lms\<rparr>])))"

text \<open>The two steps of \<^verbatim>\<open>with open(json_output_path, 'w') as f: json.dump(dados_brutos, f)\<close>.\<close>

definition open_w :: "string \<Rightarrow> 'f state \<Rightarrow> 'f state" where
  "open_w p st = st\<lparr>files := (files st)(p \<mapsto> Truncated)\<rparr>"

definition json_dump :: "'f frame_data list \<Rightarrow> string \<Rightarrow> 'f state \<Rightarrow> 'f state" where
  "json_dump d p st = st\<lparr>files := (files st)(p \<mapsto> JsonDoc d)\<rparr>"

text \<open>
  The states of the file system that another process, or a run after a crash, can see
  while the artifact is written: after the open, and after the dump.
\<close>

definition artifact_write_trace :: "'f frame_data list \<Rightarrow> string \<Rightarrow> 'f state \<Rightarrow> 'f state list" where
  "artifact_write_trace d p st = [open_w p st, json_dump d p (open_w p st)]"

text \<open>
  The three values the function returns: \<^verbatim>\<open>None\<close>, the pair
  \<^verbatim>\<open>(video_nome, json_output_path)\<close>, and the pair \<^verbatim>\<open>(None, None)\<close>; a component of a pair is
  a string or Python's None.
\<close>

datatype extrair_ret = Ret_None | Ret_Tuple "string option" "string option"

definition extrair_keypoints ::
  "'f world \<Rightarrow> string \<Rightarrow> string \<Rightarrow> 'f state \<Rightarrow> extrair_ret outcome \<times> 'f state"
where
  "extrair_keypoints w video_path output_dir st =
     (let video_nome = basename video_path;
          st1 = logging (INFO_Extraindo video_nome) st;
          cap = VideoCapture w video_path
      in
      if \<not> isOpened cap then (Return Ret_None, logging (ERROR_NaoAbriu video_path) st1)
      else case frames_loop w (reads cap) 0 [] of
          Raise e \<Rightarrow> (Raise e, st1)
        | Return (frame_count, dados_brutos) \<Rightarrow>
            if dados_brutos \<noteq> [] then
              (let json_output_path = join output_dir (video_nome @ ''.json'') in
               if \<not> makedirs_ok w output_dir then (Raise OSError, st1)
               else if \<not> open_w_ok w json_output_path then (Raise OSError, st1)
               else
                 (Return (Ret_Tuple (Some video_nome) (Some json_output_path)),
                  logging (INFO_ExtracaoConcluida frame_count)
                    (json_dump dados_brutos json_output_path (open_w json_output_path st1))))
            else (Return (Ret_Tuple None None), logging (WARNING_NenhumaPose video_nome) st1))"

subsection \<open>\<^verbatim>\<open>transformar_e_carregar\<close>\<close>

text \<open>The inner loop \<^verbatim>\<open>for landmark in frame_data['landmarks']\<close>.\<close>

fun landmark_rows ::
  "string \<Rightarrow> string \<Rightarrow> int \<Rightarrow> 'f landmark_data list \<Rightarrow> 'f row list \<Rightarrow> 'f row list"
where
  "landmark_rows video data_proc_str frame_id [] linhas_para_db = linhas_para_db"
| "landmark_rows video data_proc_str frame_id (landmark # rest) linhas_para_db =
     landmark_rows video data_proc_str frame_id rest
       (linhas_para_db @
         [\<lparr>video_nome = video, frame = frame_id, landmark_id = lm_id landmark,
           landmark_nome = lm_nome landmark, coord_x = lm_x landmark, coord_y = lm_y landmark,
           coord_z = lm_z landmark, visibilidade = lm_visibility landmark,
           data_processamento = data_proc_str\<rparr>])"

text \<open>The outer loop \<^verbatim>\<open>for frame_data in dados_brutos\<close>.\<close>

fun frame_rows ::
  "string \<Rightarrow> string \<Rightarrow> 'f frame_data list \<Rightarrow> 'f row list \<Rightarrow> 'f row list"
where
  "frame_rows video data_proc_str [] linhas_para_db = linhas_para_db"
| "frame_rows video data_proc_str (frame_data # rest) linhas_para_db =
     frame_rows video data_proc_str rest
       (landmark_rows video data_proc_str (fd_frame frame_data) (fd_landmarks frame_data)
          linhas_para_db)"

text \<open>
  The transformation, lines 128 to 144: \<^verbatim>\<open>linhas_para_db\<close> starts empty, \<^verbatim>\<open>data_proc_str\<close> is
  read from the clock before the loops.
\<close>

definition transform :: "string \<Rightarrow> string \<Rightarrow> 'f frame_data list \<Rightarrow> 'f row list" where
  "transform video data_proc_str dados_brutos = frame_rows video data_proc_str dados_brutos []"

text \<open>
  One \<^verbatim>\<open>INSERT OR IGNORE\<close> on a table with the primary key: a row whose key is in the table
  is ignored, any other is appended. The number is what the statement adds to
  \<^verbatim>\<open>cursor.rowcount\<close>.
\<close>

definition insert_or_ignore :: "'f row \<Rightarrow> 'f row list \<Rightarrow> 'f row list \<times> nat" where
  "insert_or_ignore r t =
     (if primary_key r \<in> primary_key ` set t then (t, 0) else (t @ [r], 1))"

text \<open>\<^verbatim>\<open>cursor.executemany(query, linhas_para_db)\<close>: one statement per row, in order.\<close>

fun executemany :: "'f row list \<Rightarrow> 'f row list \<Rightarrow> nat \<Rightarrow> 'f row list \<times> nat" where
  "executemany t [] rowcount = (t, rowcount)"
| "executemany t (r # rest) rowcount =
     (case insert_or_ignore r t of (t', n) \<Rightarrow> executemany t' rest (rowcount + n))"

text \<open>
  The load, lines 150 to 171, on the rows and the table: the table after the commit and
  \<^verbatim>\<open>cursor.rowcount\<close>.
\<close>

definition load :: "'f row list \<Rightarrow> 'f row list \<Rightarrow> 'f row list \<times> nat" where
  "load linhas_para_db t = executemany t linhas_para_db 0"

text \<open>
  The function has no \<^verbatim>\<open>return\<close> with a value, so what the caller receives is Python's
  None on every path. The result type is an option of a pair of numbers, so that a
  function returning the counts of inserted and skipped rows could be told from this one.
\<close>

definition transformar_e_carregar ::
  "'f world \<Rightarrow> string \<Rightarrow> string option \<Rightarrow> string \<Rightarrow> 'f state
     \<Rightarrow> (nat \<times> nat) option outcome \<times> 'f state"
where
  "transformar_e_carregar w video json_path db_path st =
     (case json_path of
        None \<Rightarrow> (Return None, st)
      | Some p \<Rightarrow>
          if p = [] then (Return None, st)
          else
            (let st1 = logging (INFO_TL video) st in
             case files st1 p of
               None \<Rightarrow> (Raise FileNotFoundError, st1)
             | Some Truncated \<Rightarrow> (Raise JSONDecodeError, st1)
             | Some (JsonDoc dados_brutos) \<Rightarrow>
                 (let linhas_para_db = transform video (utcnow_isoformat w video) dados_brutos in
                  if linhas_para_db = [] then (Return None, logging WARNING_NenhumaLinha st1)
                  else case sqlite w video db_path of
                      ConnectRaises \<Rightarrow> (Raise UnboundLocalError, logging ERROR_SQLite st1)
                    | ExecuteRaises \<Rightarrow> (Return None, logging ERROR_SQLite st1)
                    | SqlOk \<Rightarrow>
                        (case dbs st1 db_path of
                           None \<Rightarrow> (Return None, logging ERROR_SQLite st1)
                         | Some t \<Rightarrow>
                             (case load linhas_para_db t of
                                (t', rowcount) \<Rightarrow>
                                  (Return None,
                                   logging (INFO_Sucesso (int rowcount))
                                     (st1\<lparr>dbs := (dbs st1)(db_path \<mapsto> t')\<rparr>)))))))"

subsection \<open>\<^verbatim>\<open>main\<close>\<close>

text \<open>
  \<^verbatim>\<open>fnmatch\<close> for patterns of literal characters and \<^verbatim>\<open>*\<close>, which matches any run of
  characters, the empty one too. On POSIX the match is case-sensitive.
\<close>

fun fnmatch :: "string \<Rightarrow> string \<Rightarrow> bool" where
  "fnmatch [] [] = True"
| "fnmatch (c # cs) [] = False"
| "fnmatch [] (p # ps) = (p = CHR ''*'' \<and> fnmatch [] ps)"
| "fnmatch (c # cs) (p # ps) =
     (if p = CHR ''*'' then fnmatch (c # cs) ps \<or> fnmatch cs (p # ps)
      else c = p \<and> fnmatch cs ps)"

text \<open>\<^verbatim>\<open>glob._ishidden\<close>: the name starts with a dot.\<close>

definition ishidden :: "string \<Rightarrow> bool" where
  "ishidden name = (name \<noteq> [] \<and> hd name = CHR ''.'')"

text \<open>
  \<^verbatim>\<open>glob.glob(os.path.join(dir, pattern))\<close> for a directory without wildcards: the names of
  the directory that match the pattern, hidden names left out unless the pattern is
  hidden itself, each joined to the directory.
\<close>

definition glob :: "'f world \<Rightarrow> string \<Rightarrow> string \<Rightarrow> string list" where
  "glob w dir pattern =
     map (join dir)
       (filter (\<lambda>name. fnmatch name pattern)
          (if ishidden pattern then listdir w
           else filter (\<lambda>name. \<not> ishidden name) (listdir w)))"

text \<open>The body of the \<^verbatim>\<open>try\<close> in the loop of \<^verbatim>\<open>main\<close>, for one video.\<close>

definition video_job :: "'f world \<Rightarrow> string \<Rightarrow> 'f state \<Rightarrow> unit outcome \<times> 'f state" where
  "video_job w video_path st =
     (case extrair_keypoints w video_path KEYPOINTS_OUTPUT_DIR st of
        (Raise e, st1) \<Rightarrow> (Raise e, st1)
      | (Return Ret_None, st1) \<Rightarrow> (Raise TypeError, st1)
      | (Return (Ret_Tuple video json_path), st1) \<Rightarrow>
          (case video of
             None \<Rightarrow> (Return (), st1)
           | Some v \<Rightarrow>
               if v = [] then (Return (), st1)
               else (case transformar_e_carregar w v json_path DB_FILE st1 of
                       (Raise e, st2) \<Rightarrow> (Raise e, st2)
                     | (Return _, st2) \<Rightarrow> (Return (), st2))))"

text \<open>The loop \<^verbatim>\<open>for video_path in videos\<close> with its \<^verbatim>\<open>except Exception\<close>.\<close>

fun videos_loop :: "'f world \<Rightarrow> string list \<Rightarrow> 'f state \<Rightarrow> 'f state" where
  "videos_loop w [] st = st"
| "videos_loop w (video_path # rest) st =
     (case video_job w video_path st of
        (Raise e, st1) \<Rightarrow> videos_loop w rest (logging (ERROR_Falha video_path e) st1)
      | (Return _, st1) \<Rightarrow> videos_loop w rest st1)"

definition main :: "'f world \<Rightarrow> 'f state \<Rightarrow> unit outcome \<times> 'f state" where
  "main w st =
     (case setup_database w DB_FILE (logging INFO_Iniciando st) of
        (Raise e, st1) \<Rightarrow> (Raise e, st1)
      | (Return _, st1) \<Rightarrow>
          (let videos = glob w VIDEO_INPUT_DIR ''*.mp4'' in
           if videos = [] then (Return (), logging (WARNING_NenhumVideo VIDEO_INPUT_DIR) st1)
           else
             (Return (),
              logging INFO_Concluido
                (videos_loop w videos (logging (INFO_Encontrados (length videos)) st1)))))"

subsection \<open>Auxiliary notions for the statements\<close>

text \<open>The row that the inner loop appends for one landmark of one frame.\<close>

definition row_of :: "string \<Rightarrow> string \<Rightarrow> int \<Rightarrow> 'f landmark_data \<Rightarrow> 'f row" where
  "row_of video data_proc_str frame_id landmark =
     \<lparr>video_nome = video, frame = frame_id, landmark_id = lm_id landmark,
      landmark_nome = lm_nome landmark, coord_x = lm_x landmark, coord_y = lm_y landmark,
      coord_z = lm_z landmark, visibilidade = lm_visibility landmark,
      data_processamento = data_proc_str\<rparr>"



subsection \<open>A small world to run the program in\<close>

text \<open>
  Three videos and three other files. The first video cannot be opened; the second has
  three frames, the middle one without a pose and the others with two landmarks each; the
  third has two frames without a pose. Coordinates are integers here.
\<close>

definition demo_landmark :: "int \<Rightarrow> int mp_landmark" where
  "demo_landmark k = \<lparr>mp_x = k, mp_y = k + 1, mp_z = k + 2, mp_visibility = 1\<rparr>"

definition demo_world :: "int world" where
  "demo_world =
     \<lparr>listdir = [''a.mp4'', ''notes.txt'', ''b.mp4'', ''d.MP4'', ''c.mp4'', ''.e.mp4''],
      VideoCapture = (\<lambda>p.
         if p = ''/app/videos_input/a.mp4'' then \<lparr>isOpened = False, reads = []\<rparr>
         else if p = ''/app/videos_input/b.mp4''
         then \<lparr>isOpened = True,
               reads = [Some [demo_landmark 10, demo_landmark 20], None,
                        Some [demo_landmark 30, demo_landmark 40]]\<rparr>
         else \<lparr>isOpened = True, reads = [None, None]\<rparr>),
      PoseLandmark = (\<lambda>idx. if idx = 0 then Some ''NOSE''
                             else if idx = 1 then Some ''LEFT_EYE_INNER'' else None),
      utcnow_isoformat = (\<lambda>v. ''2024-05-01T10:00:00''),
      makedirs_ok = (\<lambda>p. True),
      open_w_ok = (\<lambda>p. True),
      sqlite_setup = (\<lambda>p. SqlOk),
      sqlite = (\<lambda>v p. SqlOk)\<rparr>"

definition demo_state :: "int state" where
  "demo_state = \<lparr>files = Map.empty, dbs = Map.empty, log = []\<rparr>"

definition demo_row :: "int \<Rightarrow> int \<Rightarrow> int \<Rightarrow> string \<Rightarrow> int row" where
  "demo_row f l k ts =
     \<lparr>video_nome = ''b.mp4'', frame = f, landmark_id = l, landmark_nome = ''NOSE'',
      coord_x = k, coord_y = k + 1, coord_z = k + 2, visibilidade = 1,
      data_processamento = ts\<rparr>"

text \<open>
  A document with one frame and one landmark, the state in which it is on disk and the
  table exists, and the state after it was loaded once.
\<close>

definition demo_doc :: "int frame_data list" where
  "demo_doc =
     [\<lparr>fd_frame = 0, fd_landmarks =
        [\<lparr>lm_id = 0, lm_nome = ''NOSE'', lm_x = 5, lm_y = 6, lm_z = 7, lm_visibility = 1\<rparr>]\<rparr>]"

definition demo_ready :: "int state" where
  "demo_ready =
     snd (setup_database demo_world DB_FILE
            (demo_state\<lparr>files := [''b.json'' \<mapsto> JsonDoc demo_doc]\<rparr>))"

definition demo_loaded :: "int state" where
  "demo_loaded =
     snd (transformar_e_carregar demo_world ''b.mp4'' (Some ''b.json'') DB_FILE demo_ready)"

subsection \<open>Reading the log of a run\<close>

text \<open>
  The videos whose extraction was started (the first logging call of
  \<^verbatim>\<open>extrair_keypoints\<close>), and the failures the loop of \<^verbatim>\<open>main\<close> recorded, both in the order
  of the log.
\<close>

definition attempted :: "log_record list \<Rightarrow> string list" where
  "attempted lg = concat (map (\<lambda>r. case r of INFO_Extraindo v \<Rightarrow> [v] | _ \<Rightarrow> []) lg)"

definition recorded_failures :: "log_record list \<Rightarrow> (string \<times> py_exception) list" where
  "recorded_failures lg =
     concat (map (\<lambda>r. case r of ERROR_Falha p e \<Rightarrow> [(p, e)] | _ \<Rightarrow> []) lg)"

text \<open>
  The videos for which the load logged an error of the store: the names in the records
  \<^verbatim>\<open>[T+L] Processando ...\<close> that the record \<^verbatim>\<open>Erro ao carregar dados no SQLite\<close> follows
  at once (the error record itself does not name the video).
\<close>

fun recorded_store_errors :: "log_record list \<Rightarrow> string list" where
  "recorded_store_errors [] = []"
| "recorded_store_errors [r] = []"
| "recorded_store_errors (r # r' # rest) =
     (case r of INFO_TL v \<Rightarrow> (if r' = ERROR_SQLite then [v] else []) | _ \<Rightarrow> [])
     @ recorded_store_errors (r' # rest)"

text \<open>
  The job of a video meets a failure of the store: the video opens, the extraction writes
  its artifact, the artifact gives at least one row, and SQLite raises during the load
  for this video, in \<^verbatim>\<open>sqlite3.connect\<close> or later.
\<close>

definition store_fails :: "'f world \<Rightarrow> string \<Rightarrow> bool" where
  "store_fails w video_path =
     (let cap = VideoCapture w video_path;
          v = basename video_path;
          json_path = join KEYPOINTS_OUTPUT_DIR (v @ ''.json'')
      in isOpened cap \<and> v \<noteq> []
         \<and> makedirs_ok w KEYPOINTS_OUTPUT_DIR \<and> open_w_ok w json_path
         \<and> (case frames_loop w (reads cap) 0 [] of
               Raise e \<Rightarrow> False
             | Return (frame_count, dados_brutos) \<Rightarrow>
                 dados_brutos \<noteq> []
                 \<and> transform v (utcnow_isoformat w v) dados_brutos \<noteq> [])
         \<and> sqlite w v DB_FILE \<noteq> SqlOk)"

text \<open>
  A world in which the store fails while the run is under way. Of four videos the first
  cannot be opened; each of the others has one frame with one landmark. The set-up finds
  the store; during the load for the second video a statement raises, during the load for
  the third the connection cannot be made, and for the fourth the store is up again.
\<close>

definition outage_world :: "int world" where
  "outage_world =
     \<lparr>listdir = [''a.mp4'', ''b.mp4'', ''c.mp4'', ''d.mp4''],
      VideoCapture = (\<lambda>p.
         if p = ''/app/videos_input/a.mp4'' then \<lparr>isOpened = False, reads = []\<rparr>
         else \<lparr>isOpened = True, reads = [Some [demo_landmark 5]]\<rparr>),
      PoseLandmark = (\<lambda>idx. if idx = 0 then Some ''NOSE'' else None),
      utcnow_isoformat = (\<lambda>v. ''2024-05-01T10:00:00''),
      makedirs_ok = (\<lambda>p. True),
      open_w_ok = (\<lambda>p. True),
      sqlite_setup = (\<lambda>p. SqlOk),
      sqlite = (\<lambda>v p. if v = ''b.mp4'' then ExecuteRaises
                        else if v = ''c.mp4'' then ConnectRaises else SqlOk)\<rparr>"

text \<open>The names that \<^verbatim>\<open>glob\<close> keeps for the pattern \<^verbatim>\<open>*.mp4\<close>.\<close>

definition is_mp4_name :: "string \<Rightarrow> bool" where
  "is_mp4_name name = (\<not> ishidden name \<and> suffix ''.mp4'' name)"

text \<open>What the \<^verbatim>\<open>try\<close> body for one video ends with: the exception it raises, if any.\<close>

definition job_failure :: "'f world \<Rightarrow> 'f state \<Rightarrow> string \<Rightarrow> (string \<times> py_exception) list" where
  "job_failure w st video_path =
     (case fst (video_job w video_path st) of Raise e \<Rightarrow> [(video_path, e)] | Return u \<Rightarrow> [])"

section \<open>The transformation\<close>

lemma landmark_rows_append:
  "landmark_rows v ts f lms acc = acc @ map (row_of v ts f) lms"
  by (induction lms arbitrary: acc) (simp_all add: row_of_def)

lemma frame_rows_append:
  "frame_rows v ts d acc =
     acc @ concat (map (\<lambda>fd. map (row_of v ts (fd_frame fd)) (fd_landmarks fd)) d)"
  by (induction d arbitrary: acc) (simp_all add: landmark_rows_append)

lemma transform_concat:
  "transform v ts d = concat (map (\<lambda>fd. map (row_of v ts (fd_frame fd)) (fd_landmarks fd)) d)"
  by (simp add: transform_def frame_rows_append)

text \<open>
  Claim C3. For a capture with the frames \<open>d\<close>, the transformation yields, frame after
  frame and landmark after landmark, one row per pair of a frame and one of its landmarks.
  The row carries the video's name, the frame's index, and the landmark's id, name,
  coordinates and visibility. The number of rows is the sum of the frames' landmark counts.
\<close>

theorem transform_one_row_per_landmark:
  "transform v ts d =
     concat (map (\<lambda>fd. map (\<lambda>lm.
        \<lparr>video_nome = v, frame = fd_frame fd, landmark_id = lm_id lm,
         landmark_nome = lm_nome lm, coord_x = lm_x lm, coord_y = lm_y lm,
         coord_z = lm_z lm, visibilidade = lm_visibility lm,
         data_processamento = ts\<rparr>) (fd_landmarks fd)) d)
   \<and> length (transform v ts d) = sum_list (map (\<lambda>fd. length (fd_landmarks fd)) d)"
proof
  show "transform v ts d =
     concat (map (\<lambda>fd. map (\<lambda>lm.
        \<lparr>video_nome = v, frame = fd_frame fd, landmark_id = lm_id lm,
         landmark_nome = lm_nome lm, coord_x = lm_x lm, coord_y = lm_y lm,
         coord_z = lm_z lm, visibilidade = lm_visibility lm,
         data_processamento = ts\<rparr>) (fd_landmarks fd)) d)"
    using transform_concat [of v ts d] by (simp add: row_of_def [abs_def])
  show "length (transform v ts d) = sum_list (map (\<lambda>fd. length (fd_landmarks fd)) d)"
    by (simp add: transform_concat length_concat comp_def)
qed

text \<open>
  Claim C4. The rows of one transformation all carry the timestamp that was read once,
  before the loops: the column \<open>data_processamento\<close> of the result is that one value,
  repeated.
\<close>

theorem transform_single_timestamp:
  "map data_processamento (transform v ts d) = replicate (length (transform v ts d)) ts"
proof -
  have "\<forall>r \<in> set (transform v ts d). data_processamento r = ts"
    by (auto simp: transform_concat row_of_def)
  then show ?thesis
    by (simp add: map_replicate_const [symmetric] cong: map_cong)
qed

section \<open>The load\<close>

lemma insert_or_ignore_keys:
  "primary_key ` set (fst (insert_or_ignore r t)) = insert (primary_key r) (primary_key ` set t)"
  by (auto simp: insert_or_ignore_def)


lemma insert_or_ignore_extends:
  "\<exists>new. fst (insert_or_ignore r t) = t @ new"
  by (simp add: insert_or_ignore_def)

lemma insert_or_ignore_count:
  "length (fst (insert_or_ignore r t)) = length t + snd (insert_or_ignore r t)"
  by (simp add: insert_or_ignore_def)

lemma executemany_keys:
  "primary_key ` set (fst (executemany t rows n)) = primary_key ` set t \<union> primary_key ` set rows"
proof (induction rows arbitrary: t n)
  case Nil
  then show ?case by simp
next
  case (Cons r rows)
  obtain t' k where ins: "insert_or_ignore r t = (t', k)" by (cases "insert_or_ignore r t")
  have "primary_key ` set t' = insert (primary_key r) (primary_key ` set t)"
    using insert_or_ignore_keys [of r t] ins by simp
  with Cons.IH [of t' "n + k"] ins show ?case by auto
qed


lemma executemany_extends:
  "\<exists>new. fst (executemany t rows n) = t @ new"
proof (induction rows arbitrary: t n)
  case Nil
  then show ?case by simp
next
  case (Cons r rows)
  obtain t' k where ins: "insert_or_ignore r t = (t', k)" by (cases "insert_or_ignore r t")
  obtain new1 where "t' = t @ new1"
    using insert_or_ignore_extends [of r t] ins by auto
  moreover obtain new2 where "fst (executemany t' rows (n + k)) = t' @ new2"
    using Cons.IH [of t' "n + k"] by auto
  ultimately show ?case using ins by simp
qed

lemma executemany_count:
  "length (fst (executemany t rows n)) + n = length t + snd (executemany t rows n)"
proof (induction rows arbitrary: t n)
  case Nil
  then show ?case by simp
next
  case (Cons r rows)
  obtain t' k where ins: "insert_or_ignore r t = (t', k)" by (cases "insert_or_ignore r t")
  have "length t' = length t + k"
    using insert_or_ignore_count [of r t] ins by simp
  with Cons.IH [of t' "n + k"] ins show ?case by simp
qed

lemma executemany_known_keys:
  "primary_key ` set rows \<subseteq> primary_key ` set t \<Longrightarrow> executemany t rows n = (t, n)"
  by (induction rows arbitrary: n) (auto simp: insert_or_ignore_def)

text \<open>
  Claim C1. Loading the same rows a second time inserts nothing (\<^verbatim>\<open>cursor.rowcount\<close> is 0)
  and leaves the table exactly as the first load left it, whatever the table was before.
  A row whose key is in the table is dropped and the table, with the row that holds the
  key, stays as it is.
\<close>

theorem load_twice_inserts_nothing:
  "load rows (fst (load rows t)) = (fst (load rows t), 0)
   \<and> (primary_key r \<in> primary_key ` set u \<longrightarrow> insert_or_ignore r u = (u, 0))"
proof
  have "primary_key ` set rows \<subseteq> primary_key ` set (fst (load rows t))"
    by (simp add: load_def executemany_keys)
  then show "load rows (fst (load rows t)) = (fst (load rows t), 0)"
    unfolding load_def [of rows "fst (executemany t rows 0)"] load_def [of rows t]
    by (rule executemany_known_keys)
  show "primary_key r \<in> primary_key ` set u \<longrightarrow> insert_or_ignore r u = (u, 0)"
    by (simp add: insert_or_ignore_def)
qed

theorem load_twice_inserts_nothing_witness:
  "load [demo_row 0 0 5 ''t2'', demo_row 0 1 7 ''t2'']
     (fst (load [demo_row 0 0 5 ''t2'', demo_row 0 1 7 ''t2''] [demo_row 0 0 9 ''t1'']))
     = ([demo_row 0 0 9 ''t1'', demo_row 0 1 7 ''t2''], 0)
   \<and> primary_key (demo_row 0 0 5 ''t2'') \<in> primary_key ` set [demo_row 0 0 9 ''t1'']
   \<and> insert_or_ignore (demo_row 0 0 5 ''t2'') [demo_row 0 0 9 ''t1'']
       = ([demo_row 0 0 9 ''t1''], 0)"
  using load_twice_inserts_nothing
    [of "[demo_row 0 0 5 ''t2'', demo_row 0 1 7 ''t2'']" "[demo_row 0 0 9 ''t1'']"
        "demo_row 0 0 5 ''t2''" "[demo_row 0 0 9 ''t1'']"]
  by (simp add: load_def insert_or_ignore_def primary_key_def demo_row_def)


lemma extrair_keypoints_dbs:
  "dbs (snd (extrair_keypoints w video_path output_dir st)) = dbs st"
  by (simp add: extrair_keypoints_def logging_def Let_def open_w_def json_dump_def
           split: outcome.splits prod.splits)

lemma transformar_e_carregar_dbs:
  "dbs (snd (transformar_e_carregar w video json_path db_path st)) = dbs st
   \<or> (\<exists>t rows. dbs st db_path = Some t
        \<and> dbs (snd (transformar_e_carregar w video json_path db_path st))
            = (dbs st)(db_path \<mapsto> fst (load rows t)))"
proof -
  have pick: "\<exists>rows. x = fst (load rows t)" if "load rows0 t = (x, n)" for rows0 t n and x :: "'f row list"
    using that by (metis fst_conv)
  show ?thesis
    by (auto simp: transformar_e_carregar_def logging_def Let_def dest: pick
             split: option.splits file_content.splits sqlite_behaviour.splits prod.splits)
qed



lemma transformar_e_carregar_keeps_rows:
  assumes "dbs st p = Some t"
  shows "\<exists>new. dbs (snd (transformar_e_carregar w video json_path db_path st)) p = Some (t @ new)"
proof -
  let ?st' = "snd (transformar_e_carregar w video json_path db_path st)"
  from transformar_e_carregar_dbs [of w video json_path db_path st]
  consider "dbs ?st' = dbs st"
    | t0 rows where "dbs st db_path = Some t0" "dbs ?st' = (dbs st)(db_path \<mapsto> fst (load rows t0))"
    by blast
  then show ?thesis
  proof cases
    case 1
    with assms show ?thesis by simp
  next
    case 2
    show ?thesis
    proof (cases "p = db_path")
      case True
      with assms 2(1) have "t0 = t" by simp
      moreover obtain new where "fst (load rows t) = t @ new"
        unfolding load_def using executemany_extends by blast
      ultimately show ?thesis using 2(2) True by simp
    next
      case False
      with assms 2(2) show ?thesis by simp
    qed
  qed
qed




section \<open>The extraction\<close>

lemma upt_filter_shift:
  "filter P [0..<Suc n] = (if P 0 then [0] else []) @ map Suc (filter (\<lambda>i. P (Suc i)) [0..<n])"
proof -
  have "[0..<Suc n] = 0 # map Suc [0..<n]"
    by (simp add: upt_conv_Cons map_Suc_upt del: upt_Suc)
  then show ?thesis
    by (simp add: filter_map comp_def del: upt_Suc)
qed

lemma frames_loop_result:
  "frames_loop w fs n acc = Return (n', dados) \<Longrightarrow>
     n' = n + int (length fs)
     \<and> map fd_frame dados =
         map fd_frame acc @ map (\<lambda>i. n + int i) (filter (\<lambda>i. fs ! i \<noteq> None) [0..<length fs])"
proof (induction fs arbitrary: n acc)
  case Nil
  then show ?case by simp
next
  case (Cons r rs)
  show ?case
  proof (cases r)
    case None
    with Cons.prems have "frames_loop w rs (n + 1) acc = Return (n', dados)" by simp
    from Cons.IH [OF this] None show ?thesis
      by (simp add: upt_filter_shift comp_def del: upt_Suc)
  next
    case (Some lms)
    with Cons.prems obtain ls where
      "frames_loop w rs (n + 1) (acc @ [\<lparr>fd_frame = n, fd_landmarks = ls\<rparr>]) = Return (n', dados)"
      by (auto split: outcome.splits)
    from Cons.IH [OF this] Some show ?thesis
      by (simp add: upt_filter_shift comp_def del: upt_Suc)
  qed
qed

lemma extrair_keypoints_success:
  assumes "extrair_keypoints w video_path output_dir st
             = (Return (Ret_Tuple (Some v) (Some p)), st')"
  shows "\<exists>n dados. frames_loop w (reads (VideoCapture w video_path)) 0 [] = Return (n, dados)
           \<and> dados \<noteq> [] \<and> isOpened (VideoCapture w video_path)
           \<and> v = basename video_path \<and> p = join output_dir (basename video_path @ ''.json'')
           \<and> st' = st\<lparr>files := (files st)(p \<mapsto> JsonDoc dados),
                       log := log st @ [INFO_Extraindo v, INFO_ExtracaoConcluida n]\<rparr>"
  using assms
  by (auto simp: extrair_keypoints_def Let_def logging_def open_w_def json_dump_def
           split: if_splits outcome.splits prod.splits)

lemma landmarks_loop_returns:
  "(\<And>i. i < length lms \<Longrightarrow> PoseLandmark w (idx + int i) \<noteq> None) \<Longrightarrow>
     \<exists>r. landmarks_loop w lms idx acc = Return r"
proof (induction lms arbitrary: idx acc)
  case Nil
  show ?case by simp
next
  case (Cons l ls)
  from Cons.prems [of 0] obtain name where name: "PoseLandmark w idx = Some name"
    by auto
  have "PoseLandmark w (idx + 1 + int i) \<noteq> None" if "i < length ls" for i
    using Cons.prems [of "Suc i"] that by (simp add: add.assoc)
  from Cons.IH [OF this] name show ?case by simp
qed

lemma frames_loop_returns:
  "(\<And>lms i. Some lms \<in> set fs \<Longrightarrow> i < length lms \<Longrightarrow> PoseLandmark w (int i) \<noteq> None) \<Longrightarrow>
     \<exists>n' dados. frames_loop w fs n acc = Return (n', dados)"
proof (induction fs arbitrary: n acc)
  case Nil
  show ?case by simp
next
  case (Cons r rs)
  have "PoseLandmark w (int i) \<noteq> None" if "Some lms \<in> set rs" "i < length lms" for lms i
    using Cons.prems [of lms i] that by simp
  then have rest: "\<exists>n' dados. frames_loop w rs m a = Return (n', dados)" for m a
    by (rule Cons.IH)
  show ?case
  proof (cases r)
    case None
    with rest show ?thesis by simp
  next
    case (Some lms)
    have "PoseLandmark w (0 + int i) \<noteq> None" if "i < length lms" for i
      using Cons.prems [of lms i] Some that by simp
    from landmarks_loop_returns [OF this] obtain ls where
      "landmarks_loop w lms 0 [] = Return ls" by blast
    with Some rest show ?thesis by simp
  qed
qed

text \<open>
  The extraction does return the pair of a name and a path under conditions a run can
  meet: the video opens, a pose is detected in one frame at least, MediaPipe has a name
  for every landmark index that occurs, and the directory and the file can be written.
\<close>

lemma extrair_keypoints_returns:
  assumes "isOpened (VideoCapture w video_path)"
    and "\<exists>lms. Some lms \<in> set (reads (VideoCapture w video_path))"
    and "\<And>lms i. Some lms \<in> set (reads (VideoCapture w video_path)) \<Longrightarrow> i < length lms
           \<Longrightarrow> PoseLandmark w (int i) \<noteq> None"
    and "makedirs_ok w output_dir"
    and "open_w_ok w (join output_dir (basename video_path @ ''.json''))"
  shows "fst (extrair_keypoints w video_path output_dir st)
           = Return (Ret_Tuple (Some (basename video_path))
                               (Some (join output_dir (basename video_path @ ''.json''))))"
proof -
  let ?fs = "reads (VideoCapture w video_path)"
  from frames_loop_returns [of ?fs w 0 "[]"] assms(3) obtain n dados where
    loop: "frames_loop w ?fs 0 [] = Return (n, dados)"
    by blast
  from assms(2) obtain lms where "Some lms \<in> set ?fs" by blast
  then obtain i where "i < length ?fs" "?fs ! i \<noteq> None"
    by (metis in_set_conv_nth option.distinct(1))
  then have "filter (\<lambda>i. ?fs ! i \<noteq> None) [0..<length ?fs] \<noteq> []"
    by (auto simp: filter_empty_conv)
  with frames_loop_result [OF loop] have "dados \<noteq> []" by auto
  with loop assms(1,4,5) show ?thesis
    by (simp add: extrair_keypoints_def Let_def)
qed

text \<open>
  Claim C5. When the extraction of a video succeeds, the file it wrote holds one frame
  record for each frame in which a pose was detected and none for the others. The frame
  numbers recorded are the positions, counted from 0 over all frames read, of the frames
  with a detection, so they increase strictly; and the counter that is logged at the end
  is the number of all frames read, the skipped ones included.
\<close>

theorem extrair_keypoints_sparse_frames:
  assumes "extrair_keypoints w video_path output_dir st
             = (Return (Ret_Tuple (Some v) (Some p)), st')"
  shows "\<exists>dados. files st' p = Some (JsonDoc dados)
    \<and> map fd_frame dados =
        map int (filter (\<lambda>i. reads (VideoCapture w video_path) ! i \<noteq> None)
                   [0..<length (reads (VideoCapture w video_path))])
    \<and> length dados = length (filter (\<lambda>r. r \<noteq> None) (reads (VideoCapture w video_path)))
    \<and> sorted_wrt (<) (map fd_frame dados)
    \<and> last (log st') = INFO_ExtracaoConcluida (int (length (reads (VideoCapture w video_path))))"
proof -
  let ?fs = "reads (VideoCapture w video_path)"
  from extrair_keypoints_success [OF assms] obtain n dados where
    loop: "frames_loop w ?fs 0 [] = Return (n, dados)"
    and st': "st' = st\<lparr>files := (files st)(p \<mapsto> JsonDoc dados),
                       log := log st @ [INFO_Extraindo v, INFO_ExtracaoConcluida n]\<rparr>"
    by blast
  from frames_loop_result [OF loop]
  have n: "n = int (length ?fs)"
    and idx: "map fd_frame dados = map int (filter (\<lambda>i. ?fs ! i \<noteq> None) [0..<length ?fs])"
    by simp_all
  have "length dados = length (filter (\<lambda>i. ?fs ! i \<noteq> None) [0..<length ?fs])"
    using arg_cong [OF idx, of length] by simp
  also have "\<dots> = length (filter (\<lambda>r. r \<noteq> None) ?fs)"
    using length_filter_map [of "\<lambda>r. r \<noteq> None" "\<lambda>i. ?fs ! i" "[0..<length ?fs]"]
    by (simp add: map_nth comp_def)
  finally have len: "length dados = length (filter (\<lambda>r. r \<noteq> None) ?fs)" .
  have "sorted_wrt (<) (filter (\<lambda>i. ?fs ! i \<noteq> None) [0..<length ?fs])"
    by (intro sorted_wrt_filter) simp
  then have srt: "sorted_wrt (<) (map fd_frame dados)"
    unfolding idx by (simp add: sorted_wrt_map)
  from st' n idx len srt show ?thesis by simp
qed

lemma demo_extrair_b:
  "extrair_keypoints demo_world ''/app/videos_input/b.mp4'' KEYPOINTS_OUTPUT_DIR demo_state
     = (Return (Ret_Tuple (Some ''b.mp4'') (Some ''/app/keypoints_output/b.mp4.json'')),
        snd (extrair_keypoints demo_world ''/app/videos_input/b.mp4'' KEYPOINTS_OUTPUT_DIR
               demo_state))"
  by (simp add: extrair_keypoints_def demo_world_def demo_state_def basename_def join_def
        KEYPOINTS_OUTPUT_DIR_def Let_def logging_def)

lemma demo_reads_b:
  "reads (VideoCapture demo_world ''/app/videos_input/b.mp4'')
     = [Some [demo_landmark 10, demo_landmark 20], None, Some [demo_landmark 30, demo_landmark 40]]"
  by (simp add: demo_world_def)

theorem extrair_keypoints_sparse_frames_witness:
  "extrair_keypoints demo_world ''/app/videos_input/b.mp4'' KEYPOINTS_OUTPUT_DIR demo_state
     = (Return (Ret_Tuple (Some ''b.mp4'') (Some ''/app/keypoints_output/b.mp4.json'')),
        snd (extrair_keypoints demo_world ''/app/videos_input/b.mp4'' KEYPOINTS_OUTPUT_DIR
               demo_state))
   \<and> (\<exists>dados.
         files (snd (extrair_keypoints demo_world ''/app/videos_input/b.mp4''
                       KEYPOINTS_OUTPUT_DIR demo_state)) ''/app/keypoints_output/b.mp4.json''
           = Some (JsonDoc dados)
         \<and> map fd_frame dados = [0, 2]
         \<and> length dados = 2
         \<and> sorted_wrt (<) (map fd_frame dados))
   \<and> last (log (snd (extrair_keypoints demo_world ''/app/videos_input/b.mp4''
                       KEYPOINTS_OUTPUT_DIR demo_state)))
       = INFO_ExtracaoConcluida 3"
proof -
  have idx: "[0..<3] = [0, 1, 2]"
    by (simp add: upt_rec)
  show ?thesis
    using demo_extrair_b extrair_keypoints_sparse_frames [OF demo_extrair_b]
    unfolding demo_reads_b
    by (auto simp: idx)
qed

lemma extrair_keypoints_unopened:
  "\<not> isOpened (VideoCapture w video_path) \<Longrightarrow>
     extrair_keypoints w video_path output_dir st
       = (Return Ret_None,
          st\<lparr>log := log st @ [INFO_Extraindo (basename video_path), ERROR_NaoAbriu video_path]\<rparr>)"
  by (simp add: extrair_keypoints_def Let_def logging_def)

lemma extrair_keypoints_opened:
  "isOpened (VideoCapture w video_path) \<Longrightarrow>
     fst (extrair_keypoints w video_path output_dir st) \<noteq> Return Ret_None"
  by (simp add: extrair_keypoints_def Let_def split: outcome.splits prod.splits)

text \<open>
  Claim C6. For a video that cannot be opened, \<^verbatim>\<open>extrair_keypoints\<close> logs the error and
  returns \<^verbatim>\<open>None\<close>, a value it returns for no video that opens. Nothing else happens: the
  result does not depend on the frames, and the files and the tables are the ones from
  before. In \<^verbatim>\<open>main\<close> the unpacking of that \<^verbatim>\<open>None\<close> raises TypeError, which the
  \<^verbatim>\<open>except\<close> of the loop logs as the failure of this video before the loop goes on.
\<close>

theorem unreadable_video_fails_without_effect:
  assumes "\<not> isOpened (VideoCapture w video_path)"
  shows "extrair_keypoints w video_path output_dir st
           = (Return Ret_None,
              st\<lparr>log := log st @ [INFO_Extraindo (basename video_path),
                                   ERROR_NaoAbriu video_path]\<rparr>)
    \<and> video_job w video_path st
           = (Raise TypeError,
              st\<lparr>log := log st @ [INFO_Extraindo (basename video_path),
                                   ERROR_NaoAbriu video_path]\<rparr>)
    \<and> videos_loop w (video_path # rest) st
           = videos_loop w rest
               (st\<lparr>log := log st @ [INFO_Extraindo (basename video_path),
                                    ERROR_NaoAbriu video_path,
                                    ERROR_Falha video_path TypeError]\<rparr>)
    \<and> (isOpened (VideoCapture w' video_path') \<longrightarrow>
          fst (extrair_keypoints w' video_path' output_dir' st2) \<noteq> Return Ret_None)"
proof -
  note e = extrair_keypoints_unopened [OF assms]
  have job: "video_job w video_path st
           = (Raise TypeError,
              st\<lparr>log := log st @ [INFO_Extraindo (basename video_path),
                                   ERROR_NaoAbriu video_path]\<rparr>)"
    by (simp add: video_job_def e)
  have "videos_loop w (video_path # rest) st
           = videos_loop w rest
               (st\<lparr>log := log st @ [INFO_Extraindo (basename video_path),
                                    ERROR_NaoAbriu video_path,
                                    ERROR_Falha video_path TypeError]\<rparr>)"
    by (simp add: job logging_def)
  with e job show ?thesis
    by (simp add: extrair_keypoints_opened)
qed

theorem unreadable_video_fails_without_effect_witness:
  "\<not> isOpened (VideoCapture demo_world ''/app/videos_input/a.mp4'')
   \<and> extrair_keypoints demo_world ''/app/videos_input/a.mp4'' KEYPOINTS_OUTPUT_DIR demo_state
       = (Return Ret_None,
          \<lparr>files = Map.empty, dbs = Map.empty,
           log = [INFO_Extraindo ''a.mp4'', ERROR_NaoAbriu ''/app/videos_input/a.mp4'']\<rparr>)
   \<and> videos_loop demo_world [''/app/videos_input/a.mp4''] demo_state
       = \<lparr>files = Map.empty, dbs = Map.empty,
          log = [INFO_Extraindo ''a.mp4'', ERROR_NaoAbriu ''/app/videos_input/a.mp4'',
                 ERROR_Falha ''/app/videos_input/a.mp4'' TypeError]\<rparr>
   \<and> isOpened (VideoCapture demo_world ''/app/videos_input/c.mp4'')
   \<and> fst (extrair_keypoints demo_world ''/app/videos_input/c.mp4'' KEYPOINTS_OUTPUT_DIR
            demo_state) \<noteq> Return Ret_None"
proof -
  have closed: "\<not> isOpened (VideoCapture demo_world ''/app/videos_input/a.mp4'')"
    by (simp add: demo_world_def)
  have opened: "isOpened (VideoCapture demo_world ''/app/videos_input/c.mp4'')"
    by (simp add: demo_world_def)
  show ?thesis
    using closed opened
      unreadable_video_fails_without_effect
        [OF closed, of KEYPOINTS_OUTPUT_DIR demo_state "[]" demo_world
           "''/app/videos_input/c.mp4''" KEYPOINTS_OUTPUT_DIR demo_state]
    by (simp add: demo_state_def basename_def logging_def)
qed

section \<open>How the artifact is written\<close>

text \<open>
  Claim C7, as stated, fails. The source opens the final path for writing and dumps into
  it: there is no temporary file and no rename. After the open and before the dump is
  complete, the final path holds a truncated file, and a transformation that reads it
  then raises.
\<close>

theorem artifact_partial_visible_counterexample:
  "files (hd (artifact_write_trace demo_doc ''/app/keypoints_output/b.mp4.json'' demo_state))
      ''/app/keypoints_output/b.mp4.json'' = Some Truncated
   \<and> fst (transformar_e_carregar demo_world ''b.mp4''
            (Some ''/app/keypoints_output/b.mp4.json'') DB_FILE
            (hd (artifact_write_trace demo_doc ''/app/keypoints_output/b.mp4.json'' demo_state)))
       = Raise JSONDecodeError"
  by (simp add: artifact_write_trace_def open_w_def transformar_e_carregar_def logging_def
        demo_state_def Let_def)

text \<open>
  Claim C7, amended. A successful extraction writes the artifact in place, under
  \<^verbatim>\<open>output_dir/<video_nome>.json\<close>: the states of the files during the write are first the
  old files with that path truncated, then the old files with that path holding the
  complete document, which is how the function leaves them. No other path changes.
\<close>

theorem artifact_written_in_place:
  assumes "extrair_keypoints w video_path output_dir st
             = (Return (Ret_Tuple (Some v) (Some p)), st')"
  shows "p = join output_dir (basename video_path @ ''.json'')
    \<and> (\<exists>dados. dados \<noteq> []
          \<and> map files (artifact_write_trace dados p (logging (INFO_Extraindo v) st))
              = [(files st)(p \<mapsto> Truncated), (files st)(p \<mapsto> JsonDoc dados)]
          \<and> files st' = (files st)(p \<mapsto> JsonDoc dados))"
proof -
  from extrair_keypoints_success [OF assms] obtain n dados where
    "dados \<noteq> []" "p = join output_dir (basename video_path @ ''.json'')"
    "st' = st\<lparr>files := (files st)(p \<mapsto> JsonDoc dados),
               log := log st @ [INFO_Extraindo v, INFO_ExtracaoConcluida n]\<rparr>"
    by blast
  then show ?thesis
    by (auto simp: artifact_write_trace_def open_w_def json_dump_def logging_def)
qed

theorem artifact_written_in_place_witness:
  "extrair_keypoints demo_world ''/app/videos_input/b.mp4'' KEYPOINTS_OUTPUT_DIR demo_state
     = (Return (Ret_Tuple (Some ''b.mp4'') (Some ''/app/keypoints_output/b.mp4.json'')),
        snd (extrair_keypoints demo_world ''/app/videos_input/b.mp4'' KEYPOINTS_OUTPUT_DIR
               demo_state))
   \<and> ''/app/keypoints_output/b.mp4.json'' = join KEYPOINTS_OUTPUT_DIR (''b.mp4'' @ ''.json'')
   \<and> (\<exists>dados. dados \<noteq> []
         \<and> files (snd (extrair_keypoints demo_world ''/app/videos_input/b.mp4''
                         KEYPOINTS_OUTPUT_DIR demo_state))
             = [''/app/keypoints_output/b.mp4.json'' \<mapsto> JsonDoc dados])"
  using demo_extrair_b artifact_written_in_place [OF demo_extrair_b]
  by (auto simp: demo_state_def basename_def)

section \<open>What the load reports\<close>

lemma transformar_e_carregar_returns_None:
  "fst (transformar_e_carregar w video json_path db_path st) \<noteq> Return (Some counts)"
  by (simp add: transformar_e_carregar_def Let_def
           split: option.splits file_content.splits sqlite_behaviour.splits prod.splits)

lemma transformar_e_carregar_success:
  assumes "files st p = Some (JsonDoc d)" and "p \<noteq> []"
    and "transform video (utcnow_isoformat w video) d \<noteq> []"
    and "sqlite w video db_path = SqlOk" and "dbs st db_path = Some t"
  shows "transformar_e_carregar w video (Some p) db_path st
           = (Return None,
              st\<lparr>dbs := (dbs st)(db_path \<mapsto>
                      fst (load (transform video (utcnow_isoformat w video) d) t)),
                 log := log st @ [INFO_TL video,
                   INFO_Sucesso (int (snd (load (transform video (utcnow_isoformat w video) d) t)))]\<rparr>)"
  using assms
  by (simp add: transformar_e_carregar_def Let_def logging_def split: prod.splits)

lemma load_count: "length (fst (load rows t)) = length t + snd (load rows t)"
  using executemany_count [of t rows 0] by (simp add: load_def)

lemma transform_keys:
  "map primary_key (transform v ts d) = map primary_key (transform v ts' d)"
  by (simp add: transform_concat map_concat comp_def row_of_def primary_key_def)

text \<open>
  Loading twice, at the level of the function: a second call for the same video and the
  same file, at whatever time, finds every key in the table; it logs that 0 rows were
  inserted and changes nothing but the log.
\<close>

lemma transformar_e_carregar_rerun:
  assumes "files st p = Some (JsonDoc d)" and "p \<noteq> []"
    and "transform video (utcnow_isoformat w video) d \<noteq> []"
    and "sqlite w video db_path = SqlOk" and "dbs st db_path = Some t"
    and "sqlite w2 video db_path = SqlOk"
    and "st1 = snd (transformar_e_carregar w video (Some p) db_path st)"
  shows "transformar_e_carregar w2 video (Some p) db_path st1
           = (Return None, st1\<lparr>log := log st1 @ [INFO_TL video, INFO_Sucesso 0]\<rparr>)"
proof -
  let ?rows = "transform video (utcnow_isoformat w video) d"
  let ?rows2 = "transform video (utcnow_isoformat w2 video) d"
  let ?t1 = "fst (load ?rows t)"
  from transformar_e_carregar_success [OF assms(1-5)] assms(7) assms(1)
  have st1: "files st1 p = Some (JsonDoc d)" "dbs st1 db_path = Some ?t1"
    by simp_all
  have "length ?rows2 = length ?rows"
    using arg_cong [OF transform_keys [of video "utcnow_isoformat w2 video" d
                                          "utcnow_isoformat w video"], of length]
    by simp
  with assms(3) have ne: "?rows2 \<noteq> []" by auto
  have "primary_key ` set ?rows2 = primary_key ` set ?rows"
    using arg_cong [OF transform_keys [of video "utcnow_isoformat w2 video" d
                                          "utcnow_isoformat w video"], of set]
    by simp
  then have "primary_key ` set ?rows2 \<subseteq> primary_key ` set ?t1"
    by (simp add: load_def executemany_keys)
  then have "load ?rows2 ?t1 = (?t1, 0)"
    unfolding load_def [of ?rows2] by (rule executemany_known_keys)
  with transformar_e_carregar_success [OF st1(1) assms(2) ne assms(6) st1(2)] st1(2)
  show ?thesis
    by (simp add: fun_upd_idem)
qed

text \<open>
  Claim C8, as stated, fails: the function has no \<^verbatim>\<open>return\<close> with a value. A first load
  and a second load of the same file both hand Python's None to the caller.
\<close>

theorem load_returns_no_counts_counterexample:
  "fst (transformar_e_carregar demo_world ''b.mp4'' (Some ''b.json'') DB_FILE demo_ready)
     = Return None
   \<and> fst (transformar_e_carregar demo_world ''b.mp4'' (Some ''b.json'') DB_FILE demo_loaded)
     = Return None"
  by (simp add: demo_loaded_def demo_ready_def demo_state_def demo_world_def demo_doc_def
        transformar_e_carregar_def setup_database_def logging_def transform_def load_def
        insert_or_ignore_def Let_def)

text \<open>
  Claim C8, amended. On no path does the function return counts. When the invocation
  succeeds (the file holds a document that gives at least one row, SQLite raises nothing
  and the table exists), it returns None, replaces the table by the loaded one and logs
  one number, \<^verbatim>\<open>cursor.rowcount\<close>: the number of rows the table has gained. The number of
  rows skipped as duplicates is reported nowhere.
\<close>

theorem load_logs_inserted_count_only:
  assumes "files st p = Some (JsonDoc d)" and "p \<noteq> []"
    and "transform video (utcnow_isoformat w video) d \<noteq> []"
    and "sqlite w video db_path = SqlOk" and "dbs st db_path = Some t"
  shows "fst (transformar_e_carregar w' video' json_path' db_path' st2) \<noteq> Return (Some counts)
    \<and> (\<exists>t'. t' = fst (load (transform video (utcnow_isoformat w video) d) t)
          \<and> transformar_e_carregar w video (Some p) db_path st
              = (Return None,
                 st\<lparr>dbs := (dbs st)(db_path \<mapsto> t'),
                    log := log st @ [INFO_TL video,
                                    INFO_Sucesso (int (length t') - int (length t))]\<rparr>))"
proof -
  let ?rows = "transform video (utcnow_isoformat w video) d"
  have "int (snd (load ?rows t)) = int (length (fst (load ?rows t))) - int (length t)"
    using load_count [of ?rows t] by simp
  with transformar_e_carregar_success [OF assms] show ?thesis
    by (simp add: transformar_e_carregar_returns_None)
qed

lemma demo_ready_facts:
  "files demo_ready ''b.json'' = Some (JsonDoc demo_doc)"
  "dbs demo_ready DB_FILE = Some []"
  "log demo_ready = [INFO_Configurando DB_FILE, INFO_BancoPronto]"
  "sqlite demo_world ''b.mp4'' DB_FILE = SqlOk"
  "transform ''b.mp4'' (utcnow_isoformat demo_world ''b.mp4'') demo_doc
     = [demo_row 0 0 5 ''2024-05-01T10:00:00'']"
  by (simp_all add: demo_ready_def demo_state_def demo_world_def demo_doc_def demo_row_def
        setup_database_def logging_def transform_def Let_def)

theorem load_logs_inserted_count_only_witness:
  "files demo_ready ''b.json'' = Some (JsonDoc demo_doc) \<and> ''b.json'' \<noteq> []
   \<and> transform ''b.mp4'' (utcnow_isoformat demo_world ''b.mp4'') demo_doc \<noteq> []
   \<and> sqlite demo_world ''b.mp4'' DB_FILE = SqlOk \<and> dbs demo_ready DB_FILE = Some []
   \<and> fst (transformar_e_carregar demo_world ''b.mp4'' (Some ''b.json'') DB_FILE demo_ready)
       = Return None
   \<and> log (snd (transformar_e_carregar demo_world ''b.mp4'' (Some ''b.json'') DB_FILE demo_ready))
       = [INFO_Configurando DB_FILE, INFO_BancoPronto, INFO_TL ''b.mp4'', INFO_Sucesso 1]"
proof -
  have ne: "''b.json'' \<noteq> []" by simp
  have rows: "transform ''b.mp4'' (utcnow_isoformat demo_world ''b.mp4'') demo_doc \<noteq> []"
    by (simp add: demo_ready_facts(5))
  show ?thesis
    using load_logs_inserted_count_only
      [OF demo_ready_facts(1) ne rows demo_ready_facts(4) demo_ready_facts(2),
       of demo_world "''b.mp4''" "Some ''b.json''" DB_FILE demo_ready "(0, 0)"]
    by (auto simp: demo_ready_facts load_def insert_or_ignore_def)
qed

section \<open>The run\<close>

subsection \<open>Which names the pattern selects\<close>

lemma fnmatch_literal:
  "CHR ''*'' \<notin> set pat \<Longrightarrow> fnmatch name pat = (name = pat)"
  by (induction name pat rule: fnmatch.induct) auto

lemma fnmatch_star_literal:
  "CHR ''*'' \<notin> set pat \<Longrightarrow> fnmatch name (CHR ''*'' # pat) = suffix pat name"
proof (induction name)
  case Nil
  then show ?case by (simp add: fnmatch_literal eq_commute)
next
  case (Cons c cs)
  then show ?case by (auto simp: fnmatch_literal suffix_Cons)
qed

lemma fnmatch_mp4: "fnmatch name ''*.mp4'' = suffix ''.mp4'' name"
  by (rule fnmatch_star_literal) simp

lemma glob_mp4:
  "glob w dir ''*.mp4'' = map (join dir) (filter is_mp4_name (listdir w))"
proof -
  have "(\<lambda>name. \<not> ishidden name \<and> fnmatch name ''*.mp4'') = is_mp4_name"
    by (simp add: fun_eq_iff is_mp4_name_def fnmatch_mp4)
  then show ?thesis
    by (simp add: glob_def ishidden_def [of "''*.mp4''"] conj_commute)
qed

lemma basename_join:
  assumes "CHR ''/'' \<notin> set name" and "dir \<noteq> []" and "last dir \<noteq> CHR ''/''"
  shows "basename (join dir name) = name"
proof -
  have "name = [] \<or> hd name \<noteq> CHR ''/''"
    using assms(1) by (cases name) auto
  then have j: "join dir name = dir @ CHR ''/'' # name"
    using assms(2,3) by (auto simp: join_def)
  have "takeWhile (\<lambda>c. c \<noteq> CHR ''/'') (rev name @ CHR ''/'' # rev dir) = rev name"
    using assms(1) by (subst takeWhile_tail) auto
  then show ?thesis
    by (simp add: basename_def j)
qed

lemma basename_join_input:
  "CHR ''/'' \<notin> set name \<Longrightarrow> basename (join VIDEO_INPUT_DIR name) = name"
  by (rule basename_join) (simp_all add: VIDEO_INPUT_DIR_def)

subsection \<open>What one job adds to the log\<close>

lemma attempted_append [simp]: "attempted (xs @ ys) = attempted xs @ attempted ys"
  by (simp add: attempted_def)

lemma recorded_failures_append [simp]:
  "recorded_failures (xs @ ys) = recorded_failures xs @ recorded_failures ys"
  by (simp add: recorded_failures_def)

lemma extrair_keypoints_log:
  "attempted (log (snd (extrair_keypoints w p od st))) = attempted (log st) @ [basename p]
   \<and> recorded_failures (log (snd (extrair_keypoints w p od st))) = recorded_failures (log st)"
  by (simp add: extrair_keypoints_def Let_def logging_def open_w_def json_dump_def
        attempted_def recorded_failures_def split: outcome.splits prod.splits)

lemma transformar_e_carregar_log:
  "attempted (log (snd (transformar_e_carregar w v jp db st))) = attempted (log st)
   \<and> recorded_failures (log (snd (transformar_e_carregar w v jp db st)))
       = recorded_failures (log st)"
  by (simp add: transformar_e_carregar_def Let_def logging_def attempted_def
        recorded_failures_def
        split: option.splits file_content.splits sqlite_behaviour.splits prod.splits)

lemma video_job_log:
  "attempted (log (snd (video_job w p st))) = attempted (log st) @ [basename p]
   \<and> recorded_failures (log (snd (video_job w p st))) = recorded_failures (log st)"
proof -
  obtain r st1 where e: "extrair_keypoints w p KEYPOINTS_OUTPUT_DIR st = (r, st1)"
    by (cases "extrair_keypoints w p KEYPOINTS_OUTPUT_DIR st")
  from extrair_keypoints_log [of w p KEYPOINTS_OUTPUT_DIR st] e
  have l1: "attempted (log st1) = attempted (log st) @ [basename p]"
    "recorded_failures (log st1) = recorded_failures (log st)"
    by simp_all
  show ?thesis
  proof (cases r)
    case (Raise x)
    with e l1 show ?thesis by (simp add: video_job_def)
  next
    case (Return ret)
    show ?thesis
    proof (cases ret)
      case Ret_None
      with Return e l1 show ?thesis by (simp add: video_job_def)
    next
      case (Ret_Tuple video json_path)
      show ?thesis
      proof (cases "video = None \<or> video = Some []")
        case True
        with Ret_Tuple Return e l1 show ?thesis by (auto simp: video_job_def)
      next
        case False
        then obtain v where v: "video = Some v" "v \<noteq> []" by auto
        obtain r2 st2 where t: "transformar_e_carregar w v json_path DB_FILE st1 = (r2, st2)"
          by (cases "transformar_e_carregar w v json_path DB_FILE st1")
        from transformar_e_carregar_log [of w v json_path DB_FILE st1] t l1
        have "attempted (log st2) = attempted (log st) @ [basename p]"
          "recorded_failures (log st2) = recorded_failures (log st)"
          by simp_all
        with Ret_Tuple Return e v t show ?thesis
          by (cases r2) (simp_all add: video_job_def)
      qed
    qed
  qed
qed

subsection \<open>Whether a job raises does not depend on the state\<close>

lemma extrair_keypoints_outcome_indep:
  "fst (extrair_keypoints w p od st) = fst (extrair_keypoints w p od st')"
  by (simp add: extrair_keypoints_def Let_def split: outcome.splits prod.splits)

lemma transformar_e_carregar_outcome:
  "files st jp = Some (JsonDoc d) \<Longrightarrow>
     fst (transformar_e_carregar w v (Some jp) db st)
       = (if jp \<noteq> [] \<and> transform v (utcnow_isoformat w v) d \<noteq> [] \<and> sqlite w v db = ConnectRaises
          then Raise UnboundLocalError else Return None)"
  by (simp add: transformar_e_carregar_def Let_def logging_def
           split: option.splits sqlite_behaviour.splits prod.splits)

lemma video_job_after_extrair:
  assumes "extrair_keypoints w p KEYPOINTS_OUTPUT_DIR st = (Return (Ret_Tuple (Some v) jp), st1)"
  shows "fst (video_job w p st)
           = (if v = [] then Return ()
              else case fst (transformar_e_carregar w v jp DB_FILE st1) of
                     Raise e \<Rightarrow> Raise e | Return u \<Rightarrow> Return ())"
proof -
  obtain r2 st2 where "transformar_e_carregar w v jp DB_FILE st1 = (r2, st2)"
    by (cases "transformar_e_carregar w v jp DB_FILE st1")
  with assms show ?thesis
    by (cases r2) (simp_all add: video_job_def)
qed

lemma video_job_outcome_indep:
  "fst (video_job w p st) = fst (video_job w p st')"
proof -
  obtain r st1 where e: "extrair_keypoints w p KEYPOINTS_OUTPUT_DIR st = (r, st1)"
    by (cases "extrair_keypoints w p KEYPOINTS_OUTPUT_DIR st")
  obtain r' st1' where e': "extrair_keypoints w p KEYPOINTS_OUTPUT_DIR st' = (r', st1')"
    by (cases "extrair_keypoints w p KEYPOINTS_OUTPUT_DIR st'")
  from extrair_keypoints_outcome_indep [of w p KEYPOINTS_OUTPUT_DIR st st'] e e'
  have rr: "r' = r" by simp
  show ?thesis
  proof (cases r)
    case (Raise x)
    with e e' rr show ?thesis by (simp add: video_job_def)
  next
    case (Return ret)
    show ?thesis
    proof (cases ret)
      case Ret_None
      with Return e e' rr show ?thesis by (simp add: video_job_def)
    next
      case (Ret_Tuple video json_path)
      show ?thesis
      proof (cases video)
        case None
        with Ret_Tuple Return e e' rr show ?thesis by (simp add: video_job_def)
      next
        case (Some v)
        show ?thesis
        proof (cases json_path)
          case None
          with Some Ret_Tuple Return e e' rr show ?thesis
            by (simp add: video_job_def transformar_e_carregar_def split: outcome.splits)
        next
          case (Some jp)
          note s = extrair_keypoints_success [of w p KEYPOINTS_OUTPUT_DIR st v jp st1]
            and s' = extrair_keypoints_success [of w p KEYPOINTS_OUTPUT_DIR st' v jp st1']
          from e Return Ret_Tuple \<open>video = Some v\<close> Some s obtain n d where
            d: "frames_loop w (reads (VideoCapture w p)) 0 [] = Return (n, d)"
            and f: "files st1 jp = Some (JsonDoc d)"
            by auto
          from e' rr Return Ret_Tuple \<open>video = Some v\<close> Some s' obtain n' d' where
            d': "frames_loop w (reads (VideoCapture w p)) 0 [] = Return (n', d')"
            and f': "files st1' jp = Some (JsonDoc d')"
            by auto
          from d d' have "d' = d" by simp
          with f f' have
            "fst (transformar_e_carregar w v (Some jp) DB_FILE st1)
               = fst (transformar_e_carregar w v (Some jp) DB_FILE st1')"
            by (simp add: transformar_e_carregar_outcome)
          moreover have "extrair_keypoints w p KEYPOINTS_OUTPUT_DIR st
                           = (Return (Ret_Tuple (Some v) (Some jp)), st1)"
            and "extrair_keypoints w p KEYPOINTS_OUTPUT_DIR st'
                   = (Return (Ret_Tuple (Some v) (Some jp)), st1')"
            using e e' rr Return Ret_Tuple \<open>video = Some v\<close> Some by simp_all
          ultimately show ?thesis
            by (simp add: video_job_after_extrair)
        qed
      qed
    qed
  qed
qed

lemma job_failure_indep: "job_failure w st p = job_failure w st' p"
  using video_job_outcome_indep [of w p st st'] by (simp add: job_failure_def)

subsection \<open>The loop over the videos\<close>

lemma videos_loop_log:
  "attempted (log (videos_loop w ps st)) = attempted (log st) @ map basename ps
   \<and> recorded_failures (log (videos_loop w ps st))
       = recorded_failures (log st) @ concat (map (job_failure w st0) ps)"
proof (induction ps arbitrary: st)
  case Nil
  show ?case by simp
next
  case (Cons p ps)
  obtain r st1 where j: "video_job w p st = (r, st1)"
    by (cases "video_job w p st")
  from video_job_log [of w p st] j
  have l1: "attempted (log st1) = attempted (log st) @ [basename p]"
    "recorded_failures (log st1) = recorded_failures (log st)"
    by simp_all
  have jf: "job_failure w st0 p = job_failure w st p"
    by (rule job_failure_indep)
  show ?case
  proof (cases r)
    case (Return u)
    with j l1 jf Cons.IH [of st1] show ?thesis
      by (simp add: job_failure_def)
  next
    case (Raise e)
    have "attempted (log (logging (ERROR_Falha p e) st1)) = attempted (log st) @ [basename p]"
      "recorded_failures (log (logging (ERROR_Falha p e) st1))
         = recorded_failures (log st) @ [(p, e)]"
      using l1 by (simp_all add: logging_def attempted_def recorded_failures_def)
    with j Raise jf Cons.IH [of "logging (ERROR_Falha p e) st1"] show ?thesis
      by (simp add: job_failure_def)
  qed
qed

subsection \<open>Where the log records an error of the store\<close>

lemma recorded_store_errors_none:
  "ERROR_SQLite \<notin> set xs \<Longrightarrow> recorded_store_errors xs = []"
  by (induction xs rule: recorded_store_errors.induct) (auto split: log_record.splits)

lemma recorded_store_errors_append:
  "ys = [] \<or> hd ys \<noteq> ERROR_SQLite \<Longrightarrow>
     recorded_store_errors (xs @ ys) = recorded_store_errors xs @ recorded_store_errors ys"
proof (induction xs rule: recorded_store_errors.induct)
  case 1
  show ?case by simp
next
  case (2 r)
  then show ?case by (cases ys) (auto split: log_record.splits)
next
  case (3 r r' rest)
  then show ?case by simp
qed

lemma join_nonempty: "a \<noteq> [] \<Longrightarrow> join a b \<noteq> []"
  by (auto simp: join_def)

lemma extrair_keypoints_log_shape:
  "\<exists>seg. log (snd (extrair_keypoints w p od st)) = log st @ INFO_Extraindo (basename p) # seg
         \<and> ERROR_SQLite \<notin> set seg"
  by (simp add: extrair_keypoints_def Let_def logging_def open_w_def json_dump_def
           split: outcome.splits prod.splits)

lemma extrair_keypoints_success_writable:
  assumes "extrair_keypoints w video_path output_dir st
             = (Return (Ret_Tuple (Some v) (Some p)), st')"
  shows "makedirs_ok w output_dir \<and> open_w_ok w p"
  using assms
  by (auto simp: extrair_keypoints_def Let_def split: if_splits outcome.splits prod.splits)

lemma transformar_e_carregar_log_shape:
  assumes "files st jp = Some (JsonDoc d)" and "jp \<noteq> []" and "dbs st db \<noteq> None"
  shows "\<exists>x. log (snd (transformar_e_carregar w v (Some jp) db st)) = log st @ [INFO_TL v, x]
           \<and> (x = ERROR_SQLite
                \<longleftrightarrow> transform v (utcnow_isoformat w v) d \<noteq> [] \<and> sqlite w v db \<noteq> SqlOk)"
  using assms
  by (auto simp: transformar_e_carregar_def Let_def logging_def
           split: sqlite_behaviour.splits prod.splits)

lemma video_job_table:
  assumes "dbs st DB_FILE \<noteq> None"
  shows "dbs (snd (video_job w p st)) DB_FILE \<noteq> None"
proof -
  obtain r st1 where e: "extrair_keypoints w p KEYPOINTS_OUTPUT_DIR st = (r, st1)"
    by (cases "extrair_keypoints w p KEYPOINTS_OUTPUT_DIR st")
  with extrair_keypoints_dbs [of w p KEYPOINTS_OUTPUT_DIR st] assms
  obtain t where t: "dbs st1 DB_FILE = Some t" by auto
  have "dbs (snd (transformar_e_carregar w v jp DB_FILE st1)) DB_FILE \<noteq> None" for v jp
    using transformar_e_carregar_keeps_rows [OF t, of w v jp DB_FILE] by auto
  with e t show ?thesis
    by (auto simp: video_job_def split: outcome.splits extrair_ret.splits option.splits
          prod.splits; metis snd_conv)
qed

lemma store_fails_job:
  assumes "store_fails w p" and "dbs st DB_FILE \<noteq> None"
  shows "\<exists>n. log (snd (video_job w p st))
               = log st @ [INFO_Extraindo (basename p), INFO_ExtracaoConcluida n,
                           INFO_TL (basename p), ERROR_SQLite]"
proof -
  let ?v = "basename p"
  let ?jp = "join KEYPOINTS_OUTPUT_DIR (?v @ ''.json'')"
  from assms(1) obtain n d where
    loop: "frames_loop w (reads (VideoCapture w p)) 0 [] = Return (n, d)"
    and d: "d \<noteq> []" and rows: "transform ?v (utcnow_isoformat w ?v) d \<noteq> []"
    and rest: "isOpened (VideoCapture w p)" "?v \<noteq> []" "makedirs_ok w KEYPOINTS_OUTPUT_DIR"
      "open_w_ok w ?jp" "sqlite w ?v DB_FILE \<noteq> SqlOk"
    by (auto simp: store_fails_def Let_def split: outcome.splits)
  let ?st1 = "st\<lparr>files := (files st)(?jp \<mapsto> JsonDoc d),
                  log := log st @ [INFO_Extraindo ?v, INFO_ExtracaoConcluida n]\<rparr>"
  have e: "extrair_keypoints w p KEYPOINTS_OUTPUT_DIR st
             = (Return (Ret_Tuple (Some ?v) (Some ?jp)), ?st1)"
    using loop d rest
    by (simp add: extrair_keypoints_def Let_def logging_def open_w_def json_dump_def)
  have jp: "?jp \<noteq> []"
    by (rule join_nonempty) (simp add: KEYPOINTS_OUTPUT_DIR_def)
  have "files ?st1 ?jp = Some (JsonDoc d)" "dbs ?st1 DB_FILE \<noteq> None"
    using assms(2) by simp_all
  from transformar_e_carregar_log_shape [OF this(1) jp this(2), of w ?v] rows rest(5)
  have "log (snd (transformar_e_carregar w ?v (Some ?jp) DB_FILE ?st1))
          = log ?st1 @ [INFO_TL ?v, ERROR_SQLite]"
    by auto
  moreover have "snd (video_job w p st) = snd (transformar_e_carregar w ?v (Some ?jp) DB_FILE ?st1)"
    using e rest(2) by (simp add: video_job_def split: prod.splits outcome.splits)
  ultimately show ?thesis by simp
qed

lemma no_store_failure_job:
  assumes "\<not> store_fails w p" and "dbs st DB_FILE \<noteq> None"
  shows "\<exists>seg. log (snd (video_job w p st)) = log st @ INFO_Extraindo (basename p) # seg
           \<and> ERROR_SQLite \<notin> set seg"
proof -
  obtain r st1 where e: "extrair_keypoints w p KEYPOINTS_OUTPUT_DIR st = (r, st1)"
    by (cases "extrair_keypoints w p KEYPOINTS_OUTPUT_DIR st")
  from extrair_keypoints_log_shape [of w p KEYPOINTS_OUTPUT_DIR st] e obtain seg where
    seg: "log st1 = log st @ INFO_Extraindo (basename p) # seg" "ERROR_SQLite \<notin> set seg"
    by auto
  have same: ?thesis if "log (snd (video_job w p st)) = log st1"
    using that seg by simp
  show ?thesis
  proof (cases r)
    case (Raise x)
    with e show ?thesis by (intro same) (simp add: video_job_def)
  next
    case (Return ret)
    show ?thesis
    proof (cases ret)
      case Ret_None
      with Return e show ?thesis by (intro same) (simp add: video_job_def)
    next
      case (Ret_Tuple video json_path)
      show ?thesis
      proof (cases "video = None \<or> video = Some [] \<or> json_path = None")
        case True
        with Ret_Tuple Return e show ?thesis
          by (intro same)
             (auto simp: video_job_def transformar_e_carregar_def split: option.splits)
      next
        case False
        then obtain v jp where v: "video = Some v" "v \<noteq> []" and jp: "json_path = Some jp"
          by auto
        have e': "extrair_keypoints w p KEYPOINTS_OUTPUT_DIR st
                    = (Return (Ret_Tuple (Some v) (Some jp)), st1)"
          using e Return Ret_Tuple v jp by simp
        from extrair_keypoints_success [OF e'] obtain n d where
          loop: "frames_loop w (reads (VideoCapture w p)) 0 [] = Return (n, d)"
          and facts: "d \<noteq> []" "isOpened (VideoCapture w p)" "v = basename p"
            "jp = join KEYPOINTS_OUTPUT_DIR (basename p @ ''.json'')"
          and st1: "st1 = st\<lparr>files := (files st)(jp \<mapsto> JsonDoc d),
                              log := log st @ [INFO_Extraindo v, INFO_ExtracaoConcluida n]\<rparr>"
          by blast
        note wr = extrair_keypoints_success_writable [OF e']
        have quiet: "transform v (utcnow_isoformat w v) d = [] \<or> sqlite w v DB_FILE = SqlOk"
          using assms(1) loop facts wr v(2)
          by (auto simp: store_fails_def Let_def)
        have jpne: "jp \<noteq> []"
          unfolding facts(4) by (rule join_nonempty) (simp add: KEYPOINTS_OUTPUT_DIR_def)
        have "files st1 jp = Some (JsonDoc d)" "dbs st1 DB_FILE \<noteq> None"
          using st1 assms(2) by simp_all
        from transformar_e_carregar_log_shape [OF this(1) jpne this(2), of w v] quiet
        obtain x where x: "log (snd (transformar_e_carregar w v (Some jp) DB_FILE st1))
                              = log st1 @ [INFO_TL v, x]" "x \<noteq> ERROR_SQLite"
          by auto
        have "snd (video_job w p st) = snd (transformar_e_carregar w v (Some jp) DB_FILE st1)"
          using e' v(2) by (simp add: video_job_def split: prod.splits outcome.splits)
        with x seg show ?thesis by simp
      qed
    qed
  qed
qed

lemma video_job_store_errors:
  assumes "dbs st DB_FILE \<noteq> None"
  shows "\<exists>seg. log (snd (video_job w p st)) = log st @ INFO_Extraindo (basename p) # seg
           \<and> recorded_store_errors (INFO_Extraindo (basename p) # seg)
               = (if store_fails w p then [basename p] else [])"
proof (cases "store_fails w p")
  case True
  from store_fails_job [OF True assms] obtain n where
    "log (snd (video_job w p st))
       = log st @ [INFO_Extraindo (basename p), INFO_ExtracaoConcluida n,
                   INFO_TL (basename p), ERROR_SQLite]"
    by auto
  with True have
    "log (snd (video_job w p st))
       = log st @ INFO_Extraindo (basename p)
                  # [INFO_ExtracaoConcluida n, INFO_TL (basename p), ERROR_SQLite]
     \<and> recorded_store_errors (INFO_Extraindo (basename p)
                  # [INFO_ExtracaoConcluida n, INFO_TL (basename p), ERROR_SQLite])
         = (if store_fails w p then [basename p] else [])"
    by simp
  then show ?thesis by (rule exI)
next
  case False
  from no_store_failure_job [OF False assms] obtain seg where
    "log (snd (video_job w p st)) = log st @ INFO_Extraindo (basename p) # seg"
    "ERROR_SQLite \<notin> set seg"
    by auto
  with False have
    "log (snd (video_job w p st)) = log st @ INFO_Extraindo (basename p) # seg
     \<and> recorded_store_errors (INFO_Extraindo (basename p) # seg)
         = (if store_fails w p then [basename p] else [])"
    by (simp add: recorded_store_errors_none)
  then show ?thesis by (rule exI)
qed

lemma videos_loop_store_errors:
  assumes "dbs st DB_FILE \<noteq> None"
  shows "recorded_store_errors (log (videos_loop w ps st))
           = recorded_store_errors (log st) @ map basename (filter (store_fails w) ps)"
  using assms
proof (induction ps arbitrary: st)
  case Nil
  show ?case by simp
next
  case (Cons p ps)
  obtain r st1 where j: "video_job w p st = (r, st1)"
    by (cases "video_job w p st")
  from video_job_store_errors [OF Cons.prems, of w p] j obtain seg where
    seg: "log st1 = log st @ INFO_Extraindo (basename p) # seg"
    "recorded_store_errors (INFO_Extraindo (basename p) # seg)
       = (if store_fails w p then [basename p] else [])"
    by auto
  from video_job_table [OF Cons.prems, of w p] j have tab: "dbs st1 DB_FILE \<noteq> None"
    by simp
  have l1: "recorded_store_errors (log st1)
              = recorded_store_errors (log st) @ (if store_fails w p then [basename p] else [])"
    unfolding seg(1) using seg(2) by (subst recorded_store_errors_append) simp_all
  show ?case
  proof (cases r)
    case (Return u)
    with j l1 Cons.IH [OF tab] show ?thesis by simp
  next
    case (Raise e)
    let ?st2 = "logging (ERROR_Falha p e) st1"
    have "recorded_store_errors (log ?st2) = recorded_store_errors (log st1)"
      unfolding logging_def
      by (simp add: recorded_store_errors_append recorded_store_errors_none)
    moreover have "dbs ?st2 DB_FILE \<noteq> None"
      using tab by (simp add: logging_def)
    ultimately show ?thesis
      using j Raise l1 Cons.IH [of ?st2] by simp
  qed
qed

subsection \<open>The program reads the directory only through \<^verbatim>\<open>glob\<close>\<close>

lemma landmarks_loop_listdir:
  "landmarks_loop (w\<lparr>listdir := l\<rparr>) lms idx acc = landmarks_loop w lms idx acc"
  by (induction lms arbitrary: idx acc) (simp_all split: option.splits)

lemma frames_loop_listdir:
  "frames_loop (w\<lparr>listdir := l\<rparr>) fs n acc = frames_loop w fs n acc"
  by (induction fs arbitrary: n acc)
     (simp_all add: landmarks_loop_listdir split: option.splits outcome.splits)

lemma extrair_keypoints_listdir:
  "extrair_keypoints (w\<lparr>listdir := l\<rparr>) p od st = extrair_keypoints w p od st"
  by (simp add: extrair_keypoints_def frames_loop_listdir Let_def
           split: outcome.splits prod.splits)

lemma transformar_e_carregar_listdir:
  "transformar_e_carregar (w\<lparr>listdir := l\<rparr>) v jp db st = transformar_e_carregar w v jp db st"
  by (simp add: transformar_e_carregar_def Let_def
           split: option.splits file_content.splits sqlite_behaviour.splits)

lemma video_job_listdir: "video_job (w\<lparr>listdir := l\<rparr>) p st = video_job w p st"
  by (simp add: video_job_def extrair_keypoints_listdir transformar_e_carregar_listdir
           split: prod.splits outcome.splits extrair_ret.splits option.splits)

lemma videos_loop_listdir: "videos_loop (w\<lparr>listdir := l\<rparr>) ps st = videos_loop w ps st"
  by (induction ps arbitrary: st)
     (simp_all add: video_job_listdir split: prod.splits outcome.splits)

lemma setup_database_listdir:
  "setup_database (w\<lparr>listdir := l\<rparr>) db st = setup_database w db st"
  by (simp add: setup_database_def Let_def split: sqlite_behaviour.splits)

lemma glob_mp4_filtered:
  "glob (w\<lparr>listdir := filter is_mp4_name (listdir w)\<rparr>) dir ''*.mp4'' = glob w dir ''*.mp4''"
  by (simp add: glob_mp4)

subsection \<open>\<^verbatim>\<open>main\<close>\<close>

lemma main_after_setup:
  assumes "setup_database w DB_FILE (logging INFO_Iniciando st) = (Return u, st1)"
  shows "fst (main w st) = Return ()
    \<and> attempted (log (snd (main w st)))
        = attempted (log st1) @ map basename (glob w VIDEO_INPUT_DIR ''*.mp4'')
    \<and> recorded_failures (log (snd (main w st)))
        = recorded_failures (log st1)
          @ concat (map (job_failure w st0) (glob w VIDEO_INPUT_DIR ''*.mp4''))"
proof (cases "glob w VIDEO_INPUT_DIR ''*.mp4'' = []")
  case True
  with assms show ?thesis
    by (simp add: main_def logging_def attempted_def recorded_failures_def)
next
  case False
  let ?vs = "glob w VIDEO_INPUT_DIR ''*.mp4''"
  let ?st2 = "logging (INFO_Encontrados (length ?vs)) st1"
  have "attempted (log ?st2) = attempted (log st1)"
    "recorded_failures (log ?st2) = recorded_failures (log st1)"
    by (simp_all add: logging_def attempted_def recorded_failures_def)
  with videos_loop_log [of w ?vs ?st2 st0]
  have "attempted (log (logging INFO_Concluido (videos_loop w ?vs ?st2)))
          = attempted (log st1) @ map basename ?vs"
    "recorded_failures (log (logging INFO_Concluido (videos_loop w ?vs ?st2)))
          = recorded_failures (log st1) @ concat (map (job_failure w st0) ?vs)"
    by (simp_all add: logging_def attempted_def recorded_failures_def)
  with assms False show ?thesis
    by (simp add: main_def Let_def)
qed

lemma setup_database_log:
  "attempted (log (snd (setup_database w db st))) = attempted (log st)
   \<and> recorded_failures (log (snd (setup_database w db st))) = recorded_failures (log st)"
  by (simp add: setup_database_def Let_def logging_def attempted_def recorded_failures_def
           split: sqlite_behaviour.splits)

lemma main_setup_failure:
  assumes "fst (setup_database w DB_FILE (logging INFO_Iniciando st)) = Raise e"
  shows "fst (main w st) = Raise e \<and> attempted (log (snd (main w st))) = attempted (log st)"
proof -
  obtain st1 where s: "setup_database w DB_FILE (logging INFO_Iniciando st) = (Raise e, st1)"
    using assms by (cases "setup_database w DB_FILE (logging INFO_Iniciando st)") simp
  from setup_database_log [of w DB_FILE "logging INFO_Iniciando st"] s
  have "attempted (log st1) = attempted (log st)"
    by (simp add: logging_def attempted_def)
  with s show ?thesis by (simp add: main_def)
qed

lemma setup_database_returns:
  assumes "setup_database w db st = (Return u, st1)"
  shows "dbs st1 db \<noteq> None \<and> log st1 = log st @ [INFO_Configurando db, INFO_BancoPronto]"
  using assms
  by (auto simp: setup_database_def Let_def logging_def
           split: if_splits sqlite_behaviour.splits)

lemma main_store_errors:
  assumes "setup_database w DB_FILE (logging INFO_Iniciando st) = (Return u, st1)"
  shows "recorded_store_errors (log (snd (main w st)))
           = recorded_store_errors (log st)
             @ map basename (filter (store_fails w) (glob w VIDEO_INPUT_DIR ''*.mp4''))"
proof -
  let ?vs = "glob w VIDEO_INPUT_DIR ''*.mp4''"
  from setup_database_returns [OF assms]
  have tab: "dbs st1 DB_FILE \<noteq> None"
    and lg: "log st1 = log st @ [INFO_Iniciando, INFO_Configurando DB_FILE, INFO_BancoPronto]"
    by (simp_all add: logging_def)
  have l1: "recorded_store_errors (log st1) = recorded_store_errors (log st)"
    unfolding lg by (simp add: recorded_store_errors_append recorded_store_errors_none)
  show ?thesis
  proof (cases "?vs = []")
    case True
    have "recorded_store_errors (log (logging (WARNING_NenhumVideo VIDEO_INPUT_DIR) st1))
            = recorded_store_errors (log st1)"
      unfolding logging_def
      by (simp add: recorded_store_errors_append recorded_store_errors_none)
    with assms True l1 show ?thesis
      by (simp add: main_def)
  next
    case False
    let ?st2 = "logging (INFO_Encontrados (length ?vs)) st1"
    have "recorded_store_errors (log ?st2) = recorded_store_errors (log st1)"
      unfolding logging_def
      by (simp add: recorded_store_errors_append recorded_store_errors_none)
    moreover have "dbs ?st2 DB_FILE \<noteq> None"
      using tab by (simp add: logging_def)
    ultimately have
      "recorded_store_errors (log (videos_loop w ?vs ?st2))
         = recorded_store_errors (log st) @ map basename (filter (store_fails w) ?vs)"
      using videos_loop_store_errors [of ?st2 w ?vs] l1 by simp
    moreover have
      "recorded_store_errors (log (logging INFO_Concluido (videos_loop w ?vs ?st2)))
         = recorded_store_errors (log (videos_loop w ?vs ?st2))"
      unfolding logging_def
      by (simp add: recorded_store_errors_append recorded_store_errors_none)
    ultimately show ?thesis
      using assms False by (simp add: main_def Let_def)
  qed
qed

text \<open>
  Which exception the job of a video ends with, read off the world: TypeError when the
  video does not open, what the extraction raises, OSError when the artifact cannot be
  written, and UnboundLocalError when the connection to the store cannot be made (the
  \<^verbatim>\<open>finally\<close> clause then reads \<^verbatim>\<open>conn\<close>, which was never bound). A failure of a statement
  on an open connection is caught and logged inside \<^verbatim>\<open>transformar_e_carregar\<close> and the job
  ends normally.
\<close>

lemma job_failure_cases:
  "job_failure w st p =
     (let cap = VideoCapture w p;
          v = basename p;
          jp = join KEYPOINTS_OUTPUT_DIR (v @ ''.json'')
      in if \<not> isOpened cap then [(p, TypeError)]
         else case frames_loop w (reads cap) 0 [] of
             Raise e \<Rightarrow> [(p, e)]
           | Return (n, d) \<Rightarrow>
               if d = [] then []
               else if \<not> makedirs_ok w KEYPOINTS_OUTPUT_DIR \<or> \<not> open_w_ok w jp
               then [(p, OSError)]
               else if v \<noteq> [] \<and> transform v (utcnow_isoformat w v) d \<noteq> []
                       \<and> sqlite w v DB_FILE = ConnectRaises
               then [(p, UnboundLocalError)] else [])"
proof -
  let ?v = "basename p"
  let ?jp = "join KEYPOINTS_OUTPUT_DIR (?v @ ''.json'')"
  let ?cap = "VideoCapture w p"
  have jp: "?jp \<noteq> []"
    by (rule join_nonempty) (simp add: KEYPOINTS_OUTPUT_DIR_def)
  show ?thesis
  proof (cases "isOpened ?cap")
    case False
    then show ?thesis
      by (simp add: job_failure_def video_job_def extrair_keypoints_def Let_def)
  next
    case True
    show ?thesis
    proof (cases "frames_loop w (reads ?cap) 0 []")
      case (Raise e)
      with True show ?thesis
        by (simp add: job_failure_def video_job_def extrair_keypoints_def Let_def)
    next
      case (Return nd)
      obtain n d where nd: "nd = (n, d)" by (cases nd)
      show ?thesis
      proof (cases "d = [] \<or> \<not> makedirs_ok w KEYPOINTS_OUTPUT_DIR \<or> \<not> open_w_ok w ?jp")
        case stop: True
        with True Return nd show ?thesis
          by (auto simp: job_failure_def video_job_def extrair_keypoints_def Let_def)
      next
        case go: False
        let ?st1 = "logging (INFO_ExtracaoConcluida n)
                      (json_dump d ?jp (open_w ?jp (logging (INFO_Extraindo ?v) st)))"
        have e: "extrair_keypoints w p KEYPOINTS_OUTPUT_DIR st
                   = (Return (Ret_Tuple (Some ?v) (Some ?jp)), ?st1)"
          using True Return nd go by (simp add: extrair_keypoints_def Let_def)
        have "files ?st1 ?jp = Some (JsonDoc d)"
          by (simp add: logging_def json_dump_def)
        from transformar_e_carregar_outcome [OF this, of w ?v DB_FILE] jp
        have "fst (transformar_e_carregar w ?v (Some ?jp) DB_FILE ?st1)
                = (if transform ?v (utcnow_isoformat w ?v) d \<noteq> []
                      \<and> sqlite w ?v DB_FILE = ConnectRaises
                   then Raise UnboundLocalError else Return None)"
          by simp
        with video_job_after_extrair [OF e] True Return nd go show ?thesis
          by (simp add: job_failure_def Let_def)
      qed
    qed
  qed
qed

text \<open>
  Claim C9. Unless \<^verbatim>\<open>setup_database\<close> raises, which happens before any video is touched,
  \<^verbatim>\<open>main\<close> returns normally and the extraction is started for every video that \<^verbatim>\<open>glob\<close>
  listed, in that order, whatever happens to the videos before it: a video that does not
  open, an exception in the extraction or in writing the artifact, a store that cannot be
  reached or refuses the statement during the load of some video. Every video whose job
  raises is recorded with its exception by the \<^verbatim>\<open>except\<close> of the loop, and no other
  failure is recorded there; every video whose load met a failure of the store has the
  error record of the load in the log, right after the record that names the video, and
  no other video has.
\<close>

theorem main_attempts_every_video:
  assumes "fst (setup_database w DB_FILE (logging INFO_Iniciando st)) = Return ()"
  shows "fst (main w st) = Return ()
    \<and> attempted (log (snd (main w st)))
        = attempted (log st) @ map basename (glob w VIDEO_INPUT_DIR ''*.mp4'')
    \<and> recorded_failures (log (snd (main w st)))
        = recorded_failures (log st)
          @ concat (map (job_failure w st) (glob w VIDEO_INPUT_DIR ''*.mp4''))
    \<and> recorded_store_errors (log (snd (main w st)))
        = recorded_store_errors (log st)
          @ map basename (filter (store_fails w) (glob w VIDEO_INPUT_DIR ''*.mp4''))"
proof -
  obtain st1 where s: "setup_database w DB_FILE (logging INFO_Iniciando st) = (Return (), st1)"
    using assms by (cases "setup_database w DB_FILE (logging INFO_Iniciando st)") simp
  from setup_database_log [of w DB_FILE "logging INFO_Iniciando st"] s
  have "attempted (log st1) = attempted (log st)"
    "recorded_failures (log st1) = recorded_failures (log st)"
    by (simp_all add: logging_def attempted_def recorded_failures_def)
  with main_after_setup [OF s, of st] main_store_errors [OF s] show ?thesis by simp
qed

lemma demo_setup_ok:
  "fst (setup_database demo_world DB_FILE (logging INFO_Iniciando demo_state)) = Return ()"
  by (simp add: setup_database_def demo_world_def Let_def)

lemma demo_selected:
  "filter (\<lambda>name. \<not> ishidden name \<and> suffix ''.mp4'' name) (listdir demo_world)
     = [''a.mp4'', ''b.mp4'', ''c.mp4'']"
  by (simp add: demo_world_def ishidden_def suffix_to_prefix)

lemma demo_glob:
  "glob demo_world VIDEO_INPUT_DIR ''*.mp4''
     = [''/app/videos_input/a.mp4'', ''/app/videos_input/b.mp4'', ''/app/videos_input/c.mp4'']"
  using demo_selected
  by (simp add: glob_mp4 is_mp4_name_def [abs_def] join_def VIDEO_INPUT_DIR_def)

lemma outage_setup_ok:
  "fst (setup_database outage_world DB_FILE (logging INFO_Iniciando demo_state)) = Return ()"
  by (simp add: setup_database_def outage_world_def Let_def)

lemma outage_glob:
  "glob outage_world VIDEO_INPUT_DIR ''*.mp4''
     = [''/app/videos_input/a.mp4'', ''/app/videos_input/b.mp4'',
        ''/app/videos_input/c.mp4'', ''/app/videos_input/d.mp4'']"
  by (simp add: glob_mp4 is_mp4_name_def [abs_def] ishidden_def suffix_to_prefix
        outage_world_def join_def VIDEO_INPUT_DIR_def)

lemma outage_job_failures:
  "job_failure outage_world demo_state ''/app/videos_input/a.mp4''
     = [(''/app/videos_input/a.mp4'', TypeError)]"
  "job_failure outage_world demo_state ''/app/videos_input/b.mp4'' = []"
  "job_failure outage_world demo_state ''/app/videos_input/c.mp4''
     = [(''/app/videos_input/c.mp4'', UnboundLocalError)]"
  "job_failure outage_world demo_state ''/app/videos_input/d.mp4'' = []"
  by (simp_all add: job_failure_cases outage_world_def demo_landmark_def transform_def
        basename_def Let_def)

lemma outage_store_fails:
  "\<not> store_fails outage_world ''/app/videos_input/a.mp4''"
  "store_fails outage_world ''/app/videos_input/b.mp4''"
  "store_fails outage_world ''/app/videos_input/c.mp4''"
  "\<not> store_fails outage_world ''/app/videos_input/d.mp4''"
  by (simp_all add: store_fails_def outage_world_def demo_landmark_def transform_def
        basename_def join_def KEYPOINTS_OUTPUT_DIR_def Let_def)

theorem main_attempts_every_video_witness:
  "fst (setup_database outage_world DB_FILE (logging INFO_Iniciando demo_state)) = Return ()
   \<and> sqlite outage_world ''b.mp4'' DB_FILE = ExecuteRaises
   \<and> sqlite outage_world ''c.mp4'' DB_FILE = ConnectRaises
   \<and> fst (main outage_world demo_state) = Return ()
   \<and> attempted (log (snd (main outage_world demo_state)))
       = [''a.mp4'', ''b.mp4'', ''c.mp4'', ''d.mp4'']
   \<and> recorded_failures (log (snd (main outage_world demo_state)))
       = [(''/app/videos_input/a.mp4'', TypeError),
          (''/app/videos_input/c.mp4'', UnboundLocalError)]
   \<and> recorded_store_errors (log (snd (main outage_world demo_state)))
       = [''b.mp4'', ''c.mp4'']"
proof -
  have store: "sqlite outage_world ''b.mp4'' DB_FILE = ExecuteRaises"
    "sqlite outage_world ''c.mp4'' DB_FILE = ConnectRaises"
    by (simp_all add: outage_world_def)
  have start: "attempted (log demo_state) = []" "recorded_failures (log demo_state) = []"
    "recorded_store_errors (log demo_state) = []"
    by (simp_all add: demo_state_def attempted_def recorded_failures_def)
  show ?thesis
    using outage_setup_ok store main_attempts_every_video [OF outage_setup_ok]
    by (simp add: outage_glob outage_job_failures outage_store_fails start basename_def)
qed

text \<open>
  Claim C10. The videos of a run are the names of the input directory that \<^verbatim>\<open>glob\<close> selects
  for \<^verbatim>\<open>*.mp4\<close>, joined to the directory: the names that end in \<^verbatim>\<open>.mp4\<close>, letter case
  respected, and do not start with a dot (\<^verbatim>\<open>glob\<close> leaves hidden names to patterns that
  start with a dot). Every other name is without any effect: the run ends with the same
  result, files, tables and log as a run in a directory that holds the selected names
  only. When no name contains a slash and the set-up succeeds, the extraction is started
  for exactly the selected names.
\<close>

theorem main_processes_only_mp4:
  "glob w VIDEO_INPUT_DIR ''*.mp4''
     = map (join VIDEO_INPUT_DIR)
         (filter (\<lambda>name. \<not> ishidden name \<and> suffix ''.mp4'' name) (listdir w))
   \<and> main (w\<lparr>listdir := filter (\<lambda>name. \<not> ishidden name \<and> suffix ''.mp4'' name) (listdir w)\<rparr>) st
       = main w st
   \<and> (fst (setup_database w DB_FILE (logging INFO_Iniciando st)) = Return ()
        \<and> (\<forall>name \<in> set (listdir w). CHR ''/'' \<notin> set name)
      \<longrightarrow> attempted (log (snd (main w st)))
            = attempted (log st)
              @ filter (\<lambda>name. \<not> ishidden name \<and> suffix ''.mp4'' name) (listdir w))"
proof -
  have sel: "(\<lambda>name. \<not> ishidden name \<and> suffix ''.mp4'' name) = is_mp4_name"
    by (simp add: fun_eq_iff is_mp4_name_def)
  have g: "glob w VIDEO_INPUT_DIR ''*.mp4''
             = map (join VIDEO_INPUT_DIR) (filter is_mp4_name (listdir w))"
    by (rule glob_mp4)
  have m: "main (w\<lparr>listdir := filter is_mp4_name (listdir w)\<rparr>) st = main w st"
    by (simp add: main_def setup_database_listdir videos_loop_listdir glob_mp4_filtered
          Let_def split: prod.splits outcome.splits)
  have a: "attempted (log (snd (main w st)))
             = attempted (log st) @ filter is_mp4_name (listdir w)"
    if ok: "fst (setup_database w DB_FILE (logging INFO_Iniciando st)) = Return ()"
      and names: "\<forall>name \<in> set (listdir w). CHR ''/'' \<notin> set name"
  proof -
    obtain st1 where s: "setup_database w DB_FILE (logging INFO_Iniciando st) = (Return (), st1)"
      using ok by (cases "setup_database w DB_FILE (logging INFO_Iniciando st)") simp
    from setup_database_log [of w DB_FILE "logging INFO_Iniciando st"] s
    have "attempted (log st1) = attempted (log st)"
      by (simp add: logging_def attempted_def)
    moreover have "map basename (glob w VIDEO_INPUT_DIR ''*.mp4'') = filter is_mp4_name (listdir w)"
      unfolding g map_map using names by (intro map_idI) (simp add: basename_join_input)
    ultimately show ?thesis
      using main_after_setup [OF s, of st] by simp
  qed
  from g m a show ?thesis
    unfolding sel by blast
qed

theorem main_processes_only_mp4_witness:
  "fst (setup_database demo_world DB_FILE (logging INFO_Iniciando demo_state)) = Return ()
   \<and> (CHR ''/'' \<notin> set ''a.mp4'' \<and> CHR ''/'' \<notin> set ''notes.txt'' \<and> CHR ''/'' \<notin> set ''b.mp4''
      \<and> CHR ''/'' \<notin> set ''d.MP4'' \<and> CHR ''/'' \<notin> set ''c.mp4'' \<and> CHR ''/'' \<notin> set ''.e.mp4'')
   \<and> listdir demo_world = [''a.mp4'', ''notes.txt'', ''b.mp4'', ''d.MP4'', ''c.mp4'', ''.e.mp4'']
   \<and> glob demo_world VIDEO_INPUT_DIR ''*.mp4''
       = [''/app/videos_input/a.mp4'', ''/app/videos_input/b.mp4'', ''/app/videos_input/c.mp4'']
   \<and> main (demo_world\<lparr>listdir := [''a.mp4'', ''b.mp4'', ''c.mp4'']\<rparr>) demo_state
       = main demo_world demo_state
   \<and> attempted (log (snd (main demo_world demo_state))) = [''a.mp4'', ''b.mp4'', ''c.mp4'']"
proof -
  have names: "\<forall>name \<in> set (listdir demo_world). CHR ''/'' \<notin> set name"
    by (simp add: demo_world_def)
  have l: "listdir demo_world
             = [''a.mp4'', ''notes.txt'', ''b.mp4'', ''d.MP4'', ''c.mp4'', ''.e.mp4'']"
    by (simp add: demo_world_def)
  have a: "attempted (log demo_state) = []"
    by (simp add: demo_state_def attempted_def)
  show ?thesis
    using main_processes_only_mp4 [of demo_world demo_state] demo_setup_ok names
    unfolding demo_selected
    by (simp add: l a demo_glob)
qed

end
